theory Spec2Isabelle
  imports Complex_Main "HOL-Library.Extended_Nat"
begin

section \<open>JavaScript values\<close>

text \<open>
  The filter utilities pass values of TypeScript type \<open>any\<close> around and build query
  documents as plain objects. Both are modelled by one datatype. An object is an
  association list in insertion order; \<open>obj_set\<close> is the assignment \<open>o[k] = v\<close>.
  Numbers are exact rationals together with \<open>NaN\<close>: the rounding of a decimal literal to
  a binary64 double, the infinities and the exponent notation of very large or very
  small numbers are not modelled. Strings are lists of 8-bit characters.
\<close>

datatype jsval =
    Undefined
  | Null
  | Boolean bool
  | NaN
  | Num rat
  | Str string
  | Arr "jsval list"
  | Obj "(string \<times> jsval) list"

text \<open>Truthiness, as \<open>if (v)\<close>, \<open>!v\<close> and \<open>v || d\<close> read it.\<close>

fun truthy :: "jsval \<Rightarrow> bool" where
  "truthy Undefined = False"
| "truthy Null = False"
| "truthy (Boolean b) = b"
| "truthy NaN = False"
| "truthy (Num r) = (r \<noteq> 0)"
| "truthy (Str s) = (s \<noteq> [])"
| "truthy (Arr xs) = True"
| "truthy (Obj kvs) = True"

definition js_or :: "jsval \<Rightarrow> jsval \<Rightarrow> jsval" where
  "js_or a b = (if truthy a then a else b)"

text \<open>Property read \<open>o.k\<close> (\<open>undefined\<close> when the key is absent or the value is no object).\<close>

fun obj_get :: "jsval \<Rightarrow> string \<Rightarrow> jsval" where
  "obj_get (Obj kvs) k = (case map_of kvs k of Some v \<Rightarrow> v | None \<Rightarrow> Undefined)"
| "obj_get _ k = Undefined"

fun obj_keys :: "jsval \<Rightarrow> string list" where
  "obj_keys (Obj kvs) = map fst kvs"
| "obj_keys _ = []"

fun obj_set :: "(string \<times> jsval) list \<Rightarrow> string \<Rightarrow> jsval \<Rightarrow> (string \<times> jsval) list" where
  "obj_set [] k v = [(k, v)]"
| "obj_set ((k', v') # kvs) k v =
     (if k' = k then (k, v) # kvs else (k', v') # obj_set kvs k v)"

subsection \<open>Strings\<close>

definition is_space :: "char \<Rightarrow> bool" where
  "is_space c = (c \<in> set [CHR 0x09, CHR 0x0A, CHR 0x0B, CHR 0x0C, CHR 0x0D, CHR 0x20, CHR 0xA0])"

definition trim :: "string \<Rightarrow> string" where
  "trim s = rev (dropWhile is_space (rev (dropWhile is_space s)))"

definition endsWith :: "string \<Rightarrow> string \<Rightarrow> bool" where
  "endsWith s suf = (length suf \<le> length s \<and> drop (length s - length suf) s = suf)"

fun str_includes :: "string \<Rightarrow> string \<Rightarrow> bool" where
  "str_includes [] p = (p = [])"
| "str_includes (c # cs) p = (take (length p) (c # cs) = p \<or> str_includes cs p)"

definition lower_char :: "char \<Rightarrow> char" where
  "lower_char c =
     (if (65::nat) \<le> of_char c \<and> of_char c \<le> (90::nat) then char_of (of_char c + (32::nat)) else c)"

definition toLowerCase :: "string \<Rightarrow> string" where
  "toLowerCase s = map lower_char s"

text \<open>\<open>s.split(c)\<close> for a one-character separator: \<open>''''.split(c)\<close> is \<open>['''']\<close>.\<close>

fun split :: "char \<Rightarrow> string \<Rightarrow> string list" where
  "split c [] = [[]]"
| "split c (x # xs) =
     (if x = c then [] # split c xs
      else (case split c xs of w # ws \<Rightarrow> (x # w) # ws | [] \<Rightarrow> [[x]]))"

fun join :: "string \<Rightarrow> string list \<Rightarrow> string" where
  "join sep [] = []"
| "join sep [x] = x"
| "join sep (x # y # ys) = x @ sep @ join sep (y # ys)"

subsection \<open>Numbers and their text\<close>

definition is_digit :: "char \<Rightarrow> bool" where
  "is_digit c = ((48::nat) \<le> of_char c \<and> of_char c \<le> (57::nat))"

definition digit_val :: "char \<Rightarrow> nat" where
  "digit_val c = of_char c - 48"

definition digit_char :: "nat \<Rightarrow> char" where
  "digit_char d = char_of (48 + d)"

definition digits_val :: "string \<Rightarrow> nat" where
  "digits_val ds = foldl (\<lambda>a c. 10 * a + digit_val c) 0 ds"

text \<open>The test \<open>/^-?\d+(\.\d+)?$/.test(s)\<close>.\<close>

definition numeric_re :: "string \<Rightarrow> bool" where
  "numeric_re s =
     (let body = (case s of c # r \<Rightarrow> if c = CHR ''-'' then r else s | [] \<Rightarrow> s);
          ip = takeWhile is_digit body;
          rest = dropWhile is_digit body
      in ip \<noteq> [] \<and>
         (rest = [] \<or>
          (hd rest = CHR ''.'' \<and> tl rest \<noteq> [] \<and> list_all is_digit (tl rest))))"

text \<open>
  \<open>parseFloat\<close> is only ever called on a trimmed string that passed \<open>numeric_re\<close>; on
  such a decimal literal it is the literal's value. Other strings are not modelled
  (the result \<open>NaN\<close> stands for them and is never reached).
\<close>

definition parseFloat :: "string \<Rightarrow> jsval" where
  "parseFloat s =
     (if numeric_re s then
        (let neg = (s \<noteq> [] \<and> hd s = CHR ''-'');
             body = (if neg then tl s else s);
             ip = takeWhile is_digit body;
             fp = drop 1 (dropWhile is_digit body);
             m = of_nat (digits_val ip) + of_nat (digits_val fp) / (10 ^ length fp)
         in Num (if neg then - m else m))
      else NaN)"

function show_nat :: "nat \<Rightarrow> string" where
  "show_nat n = (if n < 10 then [digit_char n] else show_nat (n div 10) @ [digit_char (n mod 10)])"
  by pat_completeness auto
termination
  by (relation "measure (\<lambda>n. n)") auto

fun frac_digits :: "nat \<Rightarrow> nat \<Rightarrow> nat \<Rightarrow> string" where
  "frac_digits 0 r d = []"
| "frac_digits (Suc k) r d =
     (if r = 0 then [] else digit_char ((10 * r) div d) # frac_digits k ((10 * r) mod d) d)"

definition num_to_string :: "rat \<Rightarrow> string" where
  "num_to_string r =
     (let (n, d) = quotient_of r; a = nat \<bar>n\<bar>; ip = a div nat d; rm = a mod nat d
      in (if n < 0 then ''-'' else []) @ show_nat ip @
         (if rm = 0 then [] else ''.'' @ frac_digits 20 rm (nat d)))"

text \<open>String conversion, as a template literal \<open>`${v}`\<close> performs it.\<close>

fun to_string :: "jsval \<Rightarrow> string" where
  "to_string Undefined = ''undefined''"
| "to_string Null = ''null''"
| "to_string (Boolean b) = (if b then ''true'' else ''false'')"
| "to_string NaN = ''NaN''"
| "to_string (Num r) = num_to_string r"
| "to_string (Str s) = s"
| "to_string (Arr xs) =
     join '','' (map (\<lambda>x. if x = Undefined \<or> x = Null then [] else to_string x) xs)"
| "to_string (Obj kvs) = ''[object Object]''"


section \<open>The filter utilities: \<open>kibana-filter-utils.ts\<close>\<close>

subsection \<open>Types\<close>

datatype LogicalOperator = AND | OR

text \<open>
  \<open>SimpleFilter\<close>. The optional \<open>value\<close> is the field \<open>fvalue\<close> (\<open>Undefined\<close> when
  absent). \<open>disabled\<close> is read only as \<open>!f.disabled\<close> and \<open>f.disabled || false\<close>, so an absent flag
  is \<open>False\<close>. An absent \<open>logic\<close>, \<open>minOperator\<close> or \<open>maxOperator\<close> is \<open>None\<close>.
\<close>

record SimpleFilter =
  field :: string
  operator :: string
  fvalue :: jsval
  logic :: "LogicalOperator option"
  disabled :: bool
  minValue :: jsval
  maxValue :: jsval
  minOperator :: "string option"
  maxOperator :: "string option"

record KibanaFilterMeta =
  meta_type :: "string option"
  meta_field :: "string option"
  params :: jsval
  negate :: "bool option"
  meta_disabled :: "bool option"

record KibanaFilter =
  meta :: KibanaFilterMeta
  query :: jsval

text \<open>
  \<open>FilterASTNode\<close>: a node of type \<open>'filter'\<close> with its optional filter, or a node of type
  \<open>'bool'\<close> with the optional \<open>must\<close>, \<open>should\<close>, \<open>must_not\<close> and \<open>minimum_should_match\<close>
  of its \<open>bool\<close> object.
\<close>

datatype FilterASTNode =
    FilterNode "KibanaFilter option"
  | BoolNode "FilterASTNode list option" "FilterASTNode list option"
             "FilterASTNode list option" "nat option"

subsection \<open>One clause to its query: \<open>buildSingleFilterQuery\<close>, \<open>toKibanaFilter\<close>\<close>

definition isNumeric :: "jsval \<Rightarrow> bool" where
  "isNumeric val =
     (case val of
        Undefined \<Rightarrow> False
      | Null \<Rightarrow> False
      | Str s \<Rightarrow> (if s = [] then False else numeric_re (trim s))
      | Num r \<Rightarrow> True
      | NaN \<Rightarrow> True
      | _ \<Rightarrow> False)"

definition convertValue :: "bool \<Rightarrow> jsval \<Rightarrow> jsval" where
  "convertValue isKeyword val =
     (if isKeyword then val
      else if isNumeric val then
        (let num = (case val of Str s \<Rightarrow> parseFloat (trim s) | _ \<Rightarrow> val)
         in if num = NaN then val else num)
      else val)"

text \<open>\<open>a || d\<close> on an optional string: the empty string is falsy as well.\<close>

definition str_or :: "string option \<Rightarrow> string \<Rightarrow> string" where
  "str_or a d = (case a of Some s \<Rightarrow> if s = [] then d else s | None \<Rightarrow> d)"

text \<open>The value list of \<open>is_one_of\<close> and \<open>is_not_one_of\<close>.\<close>

definition multi_values :: "jsval \<Rightarrow> jsval" where
  "multi_values v =
     (case v of
        Arr xs \<Rightarrow> v
      | Str s \<Rightarrow> Arr (map (\<lambda>w. Str (trim w)) (split CHR '','' s))
      | _ \<Rightarrow> Arr [v])"

definition must_not_doc :: "jsval \<Rightarrow> jsval" where
  "must_not_doc q = Obj [(''bool'', Obj [(''must_not'', Arr [q])])]"

definition buildSingleFilterQuery :: "'a SimpleFilter_scheme \<Rightarrow> jsval" where
  "buildSingleFilterQuery f =
     (let isKeyword = endsWith (field f) ''.keyword'';
          conv = convertValue isKeyword
      in
      if operator f = ''is'' then
        (if isKeyword \<or> isNumeric (fvalue f)
         then Obj [(''term'', Obj [(field f, conv (fvalue f))])]
         else Obj [(''match'', Obj [(field f, fvalue f)])])
      else if operator f = ''is_not'' then
        (if isKeyword \<or> isNumeric (fvalue f)
         then must_not_doc (Obj [(''term'', Obj [(field f, conv (fvalue f))])])
         else must_not_doc (Obj [(''match'', Obj [(field f, fvalue f)])]))
      else if operator f = ''is_one_of'' then
        Obj [(''terms'', Obj [(field f, multi_values (fvalue f))])]
      else if operator f = ''is_not_one_of'' then
        must_not_doc (Obj [(''terms'', Obj [(field f, multi_values (fvalue f))])])
      else if operator f = ''exists'' then
        Obj [(''exists'', Obj [(''field'', Str (field f))])]
      else if operator f = ''does_not_exist'' then
        must_not_doc (Obj [(''exists'', Obj [(''field'', Str (field f))])])
      else if operator f = ''range'' then
        (let r1 = (if truthy (minValue f)
                   then obj_set [] (str_or (minOperator f) ''gt'') (conv (minValue f))
                   else []);
             r2 = (if truthy (maxValue f)
                   then obj_set r1 (str_or (maxOperator f) ''lt'') (conv (maxValue f))
                   else r1)
         in if length r2 > 0 then Obj [(''range'', Obj [(field f, Obj r2)])] else Null)
      else if operator f = ''prefix'' then
        (if \<not> truthy (fvalue f) then Null
         else if isKeyword then Obj [(''prefix'', Obj [(field f, fvalue f)])]
         else Obj [(''wildcard'', Obj [(field f,
                Obj [(''value'', Str (to_string (fvalue f) @ ''*'')),
                     (''case_insensitive'', Boolean True)])])])
      else if operator f = ''wildcard'' then
        (if \<not> truthy (fvalue f) then Null
         else Obj [(''wildcard'', Obj [(field f,
                Obj [(''value'', fvalue f), (''case_insensitive'', Boolean True)])])])
      else if operator f = ''query_string'' then
        (if \<not> truthy (fvalue f) then Null
         else Obj [(''query_string'',
                Obj [(''default_field'', Str (field f)), (''query'', fvalue f)])])
      else Null)"

definition isNegatedOperator :: "string \<Rightarrow> bool" where
  "isNegatedOperator opr =
     (opr = ''is_not'' \<or> opr = ''does_not_exist'' \<or> opr = ''is_not_one_of'')"

definition toKibanaFilter :: "'a SimpleFilter_scheme \<Rightarrow> KibanaFilter" where
  "toKibanaFilter simpleFilter =
     \<lparr> meta = \<lparr> meta_type = Some ''phrase'',
                meta_field = Some (field simpleFilter),
                params = Obj [(''query'', fvalue simpleFilter)],
                negate = Some (isNegatedOperator (operator simpleFilter)),
                meta_disabled = Some (disabled simpleFilter) \<rparr>,
       query = buildSingleFilterQuery simpleFilter \<rparr>"

subsection \<open>AST to query document: \<open>astToEsQuery\<close>\<close>

definition match_all :: jsval where
  "match_all = Obj [(''match_all'', Obj [])]"

definition isEmptyQuery :: "jsval \<Rightarrow> bool" where
  "isEmptyQuery q =
     (\<not> truthy q \<or> (truthy (obj_get q ''match_all'') \<and> length (obj_keys q) = 1))"

text \<open>The filter \<open>q => q && !isEmptyQuery(q)\<close> over the compiled children.\<close>

definition keep_queries :: "jsval list \<Rightarrow> jsval list" where
  "keep_queries qs = filter (\<lambda>q. truthy q \<and> \<not> isEmptyQuery q) qs"

text \<open>\<open>ast.bool.minimum_should_match || 1\<close>.\<close>

definition msm_or_1 :: "nat option \<Rightarrow> jsval" where
  "msm_or_1 m = (case m of Some n \<Rightarrow> if n = 0 then Num 1 else Num (of_nat n) | None \<Rightarrow> Num 1)"

fun astToEsQuery_node :: "FilterASTNode \<Rightarrow> jsval" where
  "astToEsQuery_node (FilterNode None) = match_all"
| "astToEsQuery_node (FilterNode (Some kf)) =
     (let q = js_or (query kf) match_all
      in if negate (meta kf) = Some True then must_not_doc q else q)"
| "astToEsQuery_node (BoolNode m s mn msm) =
     (let b1 = (case m of
                  None \<Rightarrow> []
                | Some cs \<Rightarrow>
                    (let mustQueries = keep_queries (map astToEsQuery_node cs)
                     in if length mustQueries > 0 then obj_set [] ''must'' (Arr mustQueries)
                        else []));
          b2 = (case s of
                  None \<Rightarrow> b1
                | Some cs \<Rightarrow>
                    (let shouldQueries = keep_queries (map astToEsQuery_node cs)
                     in if length shouldQueries > 0
                        then obj_set (obj_set b1 ''should'' (Arr shouldQueries))
                               ''minimum_should_match'' (msm_or_1 msm)
                        else b1));
          b3 = (case mn of
                  None \<Rightarrow> b2
                | Some cs \<Rightarrow>
                    (let mustNotQueries = keep_queries (map astToEsQuery_node cs)
                     in if length mustNotQueries > 0
                        then obj_set b2 ''must_not'' (Arr mustNotQueries)
                        else b2))
      in if length b3 = 0 then match_all else Obj [(''bool'', Obj b3)])"

definition astToEsQuery :: "FilterASTNode option \<Rightarrow> jsval" where
  "astToEsQuery ast = (case ast of None \<Rightarrow> match_all | Some n \<Rightarrow> astToEsQuery_node n)"


subsection \<open>The implicit builder: \<open>buildFilterASTWithOperators\<close>, \<open>buildASTLeftAssociative\<close>\<close>

text \<open>An array read \<open>xs[i]\<close>: \<open>undefined\<close> out of range.\<close>

definition nth_opt :: "'a list \<Rightarrow> nat \<Rightarrow> 'a option" where
  "nth_opt xs i = (if i < length xs then Some (xs ! i) else None)"

definition must_node :: "FilterASTNode list \<Rightarrow> FilterASTNode" where
  "must_node cs = BoolNode (Some cs) None None None"

definition should_node :: "FilterASTNode list \<Rightarrow> FilterASTNode" where
  "should_node cs = BoolNode None (Some cs) None (Some 1)"

text \<open>
  One round of the loop of \<open>buildASTLeftAssociative\<close>: \<open>opr\<close> is \<open>operators[i - 1]\<close>,
  \<open>prevOperator\<close> is \<open>operators[i - 2]\<close> or \<open>null\<close>, \<open>nextFilter\<close> the leaf of \<open>filters[i]\<close>.
  \<open>push\<close> on the node's own array is the node with the array extended.
\<close>

definition lassoc_step ::
  "LogicalOperator option \<Rightarrow> LogicalOperator option \<Rightarrow> FilterASTNode \<Rightarrow> FilterASTNode
   \<Rightarrow> FilterASTNode" where
  "lassoc_step prevOperator opr nextFilter result =
     (let operatorChanged = (prevOperator \<noteq> None \<and> prevOperator \<noteq> opr)
      in
      if opr = Some OR then
        (if operatorChanged then should_node [result, nextFilter]
         else (case result of
                 BoolNode m (Some sh) mn msm \<Rightarrow> BoolNode m (Some (sh @ [nextFilter])) mn msm
               | _ \<Rightarrow> should_node [result, nextFilter]))
      else
        (if operatorChanged then must_node [result, nextFilter]
         else (case result of
                 BoolNode (Some mu) sh mn msm \<Rightarrow> BoolNode (Some (mu @ [nextFilter])) sh mn msm
               | _ \<Rightarrow> must_node [result, nextFilter])))"

function lassoc_loop ::
  "KibanaFilter list \<Rightarrow> LogicalOperator list \<Rightarrow> nat \<Rightarrow> FilterASTNode \<Rightarrow> FilterASTNode" where
  "lassoc_loop filters operators i result =
     (if i < length filters then
        lassoc_loop filters operators (Suc i)
          (lassoc_step (if i > 1 then nth_opt operators (i - 2) else None)
             (nth_opt operators (i - 1)) (FilterNode (Some (filters ! i))) result)
      else result)"
  by pat_completeness auto
termination
  by (relation "measure (\<lambda>(filters, operators, i, result). length filters - i)") auto

definition buildASTLeftAssociative ::
  "KibanaFilter list \<Rightarrow> LogicalOperator list \<Rightarrow> FilterASTNode option" where
  "buildASTLeftAssociative filters operators =
     (if length filters = 0 then None
      else if length filters = 1 then Some (FilterNode (Some (filters ! 0)))
      else Some (lassoc_loop filters operators 1 (FilterNode (Some (filters ! 0)))))"

definition logic_or_AND :: "'a SimpleFilter_scheme \<Rightarrow> LogicalOperator" where
  "logic_or_AND f = (case logic f of Some l \<Rightarrow> l | None \<Rightarrow> AND)"

definition buildFilterASTWithOperators :: "'a SimpleFilter_scheme list \<Rightarrow> FilterASTNode option" where
  "buildFilterASTWithOperators filters =
     (if length filters = 0 then None
      else
        (let enabledFilters = filter (\<lambda>f. \<not> disabled f) filters
         in if length enabledFilters = 0 then None
            else
              (let kibanaFilters = map toKibanaFilter enabledFilters;
                   operators = map logic_or_AND (drop 1 enabledFilters)
               in buildASTLeftAssociative kibanaFilters operators)))"

text \<open>The document \<open>{ query: q }\<close>.\<close>

definition query_doc :: "jsval \<Rightarrow> jsval" where
  "query_doc q = Obj [(''query'', q)]"

definition buildEsQueryFromFilters :: "'a SimpleFilter_scheme list \<Rightarrow> jsval" where
  "buildEsQueryFromFilters filters =
     (if length filters = 0 then query_doc match_all
      else (case buildFilterASTWithOperators filters of
              None \<Rightarrow> query_doc match_all
            | Some ast \<Rightarrow> query_doc (astToEsQuery (Some ast))))"


subsection \<open>The preview string: \<open>buildPreviewString\<close>, \<open>buildPreviewWithGrouping\<close>\<close>

text \<open>
  \<open>map[op] || op\<close> over the four keys of the literal. A name that the literal inherits from
  \<open>Object.prototype\<close> (such as \<open>constructor\<close>) is not modelled: it is returned unchanged.
\<close>

definition getRangeOperatorSymbol :: "string \<Rightarrow> string" where
  "getRangeOperatorSymbol opr =
     (if opr = ''gt'' then ''>'' else if opr = ''gte'' then ''>=''
      else if opr = ''lt'' then ''<'' else if opr = ''lte'' then ''<='' else opr)"

definition dash_or :: "jsval \<Rightarrow> string" where
  "dash_or v = to_string (js_or v (Str ''-''))"

text \<open>A text between double quotes.\<close>

definition quoted :: "string \<Rightarrow> string" where
  "quoted t = [CHR 0x22] @ t @ [CHR 0x22]"

definition formatFilterText :: "'a SimpleFilter_scheme \<Rightarrow> string" where
  "formatFilterText f =
     (let isNegated = isNegatedOperator (operator f);
          filterText =
            (if operator f = ''exists'' then field f @ '': exists''
             else if operator f = ''does_not_exist'' then field f @ '': exists''
             else if operator f = ''range'' then
               (let p1 = (if truthy (minValue f)
                          then [getRangeOperatorSymbol (str_or (minOperator f) ''gt'') @ '' '' @
                                to_string (minValue f)]
                          else []);
                    rangeParts = (if truthy (maxValue f)
                          then p1 @ [getRangeOperatorSymbol (str_or (maxOperator f) ''lt'') @ '' '' @
                                     to_string (maxValue f)]
                          else p1)
                in if length rangeParts > 0 then field f @ '': '' @ join '' and '' rangeParts
                   else field f @ '': -'')
             else if operator f = ''prefix'' then
               field f @ '': prefix '' @ quoted (dash_or (fvalue f))
             else if operator f = ''wildcard'' then
               field f @ '': wildcard '' @ quoted (dash_or (fvalue f))
             else if operator f = ''query_string'' then
               field f @ '': query_string '' @ quoted (dash_or (fvalue f))
             else field f @ '': '' @ dash_or (fvalue f))
      in if isNegated then ''NOT '' @ filterText else filterText)"

text \<open>An entry of \<open>expressions\<close>: the text and the operator (\<open>null\<close> is \<open>None\<close>).\<close>

type_synonym expression = "string \<times> LogicalOperator option"

definition op_name :: "LogicalOperator \<Rightarrow> string" where
  "op_name l = (case l of AND \<Rightarrow> ''AND'' | OR \<Rightarrow> ''OR'')"

text \<open>\<open>`${expr.operator}`\<close>: a \<open>null\<close> operator prints as \<open>null\<close>.\<close>

definition op_text :: "LogicalOperator option \<Rightarrow> string" where
  "op_text l = (case l of Some x \<Rightarrow> op_name x | None \<Rightarrow> ''null'')"

definition op_or_AND :: "LogicalOperator option \<Rightarrow> LogicalOperator" where
  "op_or_AND l = (case l of Some x \<Rightarrow> x | None \<Rightarrow> AND)"

function preview_loop ::
  "expression list \<Rightarrow> LogicalOperator list \<Rightarrow> nat \<Rightarrow> string \<Rightarrow> string" where
  "preview_loop expressions operators i result =
     (if i < length expressions then
        (let opr = nth_opt operators (i - 1);
             nextText = fst (expressions ! i);
             prevOperator = (if i > 1 then nth_opt operators (i - 2) else None);
             needsParens = (prevOperator \<noteq> None \<and> prevOperator \<noteq> opr)
         in preview_loop expressions operators (Suc i)
              (if needsParens
               then ''('' @ result @ '') '' @ op_text opr @ '' '' @ nextText
               else result @ '' '' @ op_text opr @ '' '' @ nextText))
      else result)"
  by pat_completeness auto
termination
  by (relation "measure (\<lambda>(expressions, operators, i, result). length expressions - i)") auto

definition buildPreviewWithGrouping :: "expression list \<Rightarrow> string" where
  "buildPreviewWithGrouping expressions =
     (if length expressions = 0 then []
      else if length expressions = 1 then fst (expressions ! 0)
      else
        (let operators = map (\<lambda>e. op_or_AND (snd e)) (drop 1 expressions);
             allSame = list_all (\<lambda>opr. Some opr = nth_opt operators 0) operators
         in if allSame then
              join '' '' (map (\<lambda>(idx, expr).
                                 if idx = 0 then fst expr
                                 else op_text (snd expr) @ '' '' @ fst expr)
                              (List.enumerate 0 expressions))
            else preview_loop expressions operators 1 (fst (expressions ! 0))))"

definition buildPreviewString :: "'a SimpleFilter_scheme list \<Rightarrow> string" where
  "buildPreviewString filters =
     (if length filters = 0 then []
      else
        (let enabledFilters = filter (\<lambda>f. \<not> disabled f) filters
         in if length enabledFilters = 0 then []
            else buildPreviewWithGrouping
                   (map (\<lambda>(index, f).
                           (formatFilterText f,
                            if index > 0 then Some (logic_or_AND f) else None))
                        (List.enumerate 0 enabledFilters))))"


subsection \<open>The builder with explicit groups: \<open>buildASTWithGroups\<close>, \<open>buildGroupNode\<close>\<close>

text \<open>
  \<open>GroupedFilter\<close> extends \<open>SimpleFilter\<close> by the optional \<open>groupMeta\<close>; the builders read
  the fields of \<open>SimpleFilter\<close> only. In \<open>FilterGroupDefinition\<close> the fields \<open>id\<close> and
  \<open>type\<close> are \<open>group_id\<close> and \<open>group_type\<close>; indices are natural numbers.
\<close>

record GroupedFilterMetadata =
  groupId :: "string option"
  groupType :: "LogicalOperator option"
  isGroupStart :: "bool option"
  isGroupEnd :: "bool option"
  meta_parentGroupId :: "string option"

record GroupedFilter = SimpleFilter +
  groupMeta :: "GroupedFilterMetadata option"
  filter_negate :: "bool option"

record FilterGroupDefinition =
  group_id :: string
  group_type :: LogicalOperator
  filterIndices :: "nat list"
  parentGroupId :: "string option"

datatype GroupAwareASTNode =
    GFilterNode "KibanaFilter option"
  | GBoolNode "GroupAwareASTNode list option" "GroupAwareASTNode list option"
              "GroupAwareASTNode list option" "nat option"
  | GGroupNode string LogicalOperator "GroupAwareASTNode list"

definition g_must :: "GroupAwareASTNode list \<Rightarrow> GroupAwareASTNode" where
  "g_must cs = GBoolNode (Some cs) None None None"

definition g_should :: "GroupAwareASTNode list \<Rightarrow> GroupAwareASTNode" where
  "g_should cs = GBoolNode None (Some cs) None (Some 1)"

definition g_leaf :: "'a SimpleFilter_scheme \<Rightarrow> GroupAwareASTNode" where
  "g_leaf f = GFilterNode (Some (toKibanaFilter f))"

text \<open>
  One round of the loop of \<open>buildFlatAST\<close>. Here the node so far decides: a \<open>should\<close>
  (a \<open>must\<close>) node is extended by \<open>OR\<close> (by \<open>AND\<close>), anything else is wrapped.
\<close>

definition flat_step :: "LogicalOperator \<Rightarrow> GroupAwareASTNode \<Rightarrow> GroupAwareASTNode \<Rightarrow> GroupAwareASTNode" where
  "flat_step opr nextFilter result =
     (if opr = OR then
        (case result of
           GBoolNode m (Some sh) mn msm \<Rightarrow> GBoolNode m (Some (sh @ [nextFilter])) mn msm
         | _ \<Rightarrow> g_should [result, nextFilter])
      else
        (case result of
           GBoolNode (Some mu) sh mn msm \<Rightarrow> GBoolNode (Some (mu @ [nextFilter])) sh mn msm
         | _ \<Rightarrow> g_must [result, nextFilter]))"

text \<open>
  Reading \<open>filters[i]\<close> out of range gives \<open>undefined\<close>, and reading a field of it throws a
  \<open>TypeError\<close>: the builders below return \<open>None\<close> where the code throws.
\<close>

function flat_loop ::
  "'a SimpleFilter_scheme list \<Rightarrow> nat \<Rightarrow> nat \<Rightarrow> GroupAwareASTNode \<Rightarrow> GroupAwareASTNode option" where
  "flat_loop filters endIdx i result =
     (if i \<le> endIdx then
        (case nth_opt filters i of
           None \<Rightarrow> None
         | Some f \<Rightarrow> flat_loop filters endIdx (Suc i) (flat_step (logic_or_AND f) (g_leaf f) result))
      else Some result)"
  by pat_completeness auto
termination
  by (relation "measure (\<lambda>(filters, endIdx, i, result). Suc endIdx - i)") auto

definition buildFlatAST ::
  "'a SimpleFilter_scheme list \<Rightarrow> nat \<Rightarrow> nat \<Rightarrow> GroupAwareASTNode option" where
  "buildFlatAST filters startIdx endIdx =
     (case nth_opt filters startIdx of
        None \<Rightarrow> None
      | Some f \<Rightarrow> flat_loop filters endIdx (Suc startIdx) (g_leaf f))"

text \<open>The filter \<open>{ meta: {} }\<close> of an empty group.\<close>

definition empty_meta_filter :: KibanaFilter where
  "empty_meta_filter =
     \<lparr> meta = \<lparr> meta_type = None, meta_field = None, params = Undefined, negate = None,
                meta_disabled = None \<rparr>,
       query = Undefined \<rparr>"

definition buildGroupNode ::
  "'a SimpleFilter_scheme list \<Rightarrow> FilterGroupDefinition \<Rightarrow> GroupAwareASTNode" where
  "buildGroupNode filters grp =
     (let groupFilters = map (\<lambda>idx. g_leaf (filters ! idx))
                           (filter (\<lambda>idx. idx < length filters) (filterIndices grp))
      in if length groupFilters = 0 then GFilterNode (Some empty_meta_filter)
         else if length groupFilters = 1 then groupFilters ! 0
         else if group_type grp = OR then g_should groupFilters
         else g_must groupFilters)"

text \<open>
  \<open>Math.min(...xs)\<close> is \<open>Infinity\<close> on the empty list. \<open>Math.max(...xs)\<close> is only read for a
  group whose minimum is an index, so for a list that is not empty.
\<close>

fun min_of :: "nat list \<Rightarrow> enat" where
  "min_of [] = \<infinity>"
| "min_of (x # xs) = min (enat x) (min_of xs)"

fun max_of :: "nat list \<Rightarrow> nat" where
  "max_of [] = 0"
| "max_of (x # xs) = max x (max_of xs)"

datatype Segment =
    GroupSeg FilterGroupDefinition nat nat
  | FilterSeg nat nat

fun seg_start :: "Segment \<Rightarrow> nat" where
  "seg_start (GroupSeg g s e) = s"
| "seg_start (FilterSeg s e) = s"

text \<open>
  The end of the run of ungrouped clauses from \<open>currentIdx\<close>: one before the least
  group start beyond \<open>currentIdx\<close> (if there is one, and it is finite), at most \<open>endIdx\<close>.
\<close>

definition run_end :: "FilterGroupDefinition list \<Rightarrow> nat \<Rightarrow> nat \<Rightarrow> nat" where
  "run_end sortedGroups endIdx currentIdx =
     (case filter (\<lambda>idx. idx > enat currentIdx) (map (\<lambda>g. min_of (filterIndices g)) sortedGroups) of
        [] \<Rightarrow> endIdx
      | s # ss \<Rightarrow> (case fold min ss s of enat n \<Rightarrow> min (n - 1) endIdx | \<infinity> \<Rightarrow> endIdx))"

lemma min_of_max_of: "min_of xs = enat c \<Longrightarrow> c \<le> max_of xs"
proof (induction xs arbitrary: c)
  case Nil
  then show ?case by simp
next
  case (Cons x xs)
  show ?case
  proof (cases "min_of xs")
    case (enat m)
    with Cons.prems have "c = min x m" by (simp add: min_def split: if_splits)
    then show ?thesis by simp
  next
    case infinity
    with Cons.prems have "c = x" by (simp add: min_def)
    then show ?thesis by simp
  qed
qed

lemma fold_min_in: "fold min ss (s::enat) \<in> set (s # ss)"
proof (induction ss arbitrary: s)
  case Nil
  then show ?case by simp
next
  case (Cons a ss)
  have ih: "fold min ss (min a s) \<in> set (min a s # ss)" by (rule Cons.IH)
  have "min a s = a \<or> min a s = s" by (simp add: min_def)
  then show ?case using ih by auto
qed

lemma run_end_ge:
  assumes "currentIdx \<le> endIdx"
  shows "currentIdx \<le> run_end sortedGroups endIdx currentIdx"
proof (cases "filter (\<lambda>idx. idx > enat currentIdx) (map (\<lambda>g. min_of (filterIndices g)) sortedGroups)")
  case Nil
  then show ?thesis using assms by (simp add: run_end_def)
next
  case (Cons s ss)
  have "fold min ss s \<in> set (s # ss)" by (rule fold_min_in)
  then have "fold min ss s \<in> set (filter (\<lambda>idx. idx > enat currentIdx)
      (map (\<lambda>g. min_of (filterIndices g)) sortedGroups))"
    using Cons by simp
  then have gt: "fold min ss s > enat currentIdx" by simp
  show ?thesis
  proof (cases "fold min ss s")
    case (enat n)
    with gt have "currentIdx < n" by simp
    then show ?thesis using assms Cons enat by (simp add: run_end_def)
  next
    case infinity
    then show ?thesis using assms Cons by (simp add: run_end_def)
  qed
qed

text \<open>The \<open>while\<close> loop that cuts \<open>[startIdx, endIdx]\<close> into segments.\<close>

function segments_loop ::
  "FilterGroupDefinition list \<Rightarrow> nat \<Rightarrow> nat \<Rightarrow> Segment list \<Rightarrow> Segment list" where
  "segments_loop sortedGroups endIdx currentIdx segments =
     (if currentIdx \<le> endIdx then
        (case find (\<lambda>g. min_of (filterIndices g) = enat currentIdx) sortedGroups of
           Some grp \<Rightarrow>
             (let groupEnd = max_of (filterIndices grp)
              in segments_loop sortedGroups endIdx (groupEnd + 1)
                   (segments @ [GroupSeg grp currentIdx groupEnd]))
         | None \<Rightarrow>
             (let segmentEnd = run_end sortedGroups endIdx currentIdx
              in segments_loop sortedGroups endIdx (segmentEnd + 1)
                   (segments @ [FilterSeg currentIdx segmentEnd])))
      else segments)"
  by pat_completeness auto
termination
proof (relation "measure (\<lambda>(sortedGroups, endIdx, currentIdx, segments). Suc endIdx - currentIdx)")
  show "wf (measure (\<lambda>(sortedGroups, endIdx, currentIdx, segments). Suc endIdx - currentIdx))"
    by simp
next
  fix sortedGroups :: "FilterGroupDefinition list" and endIdx currentIdx :: nat
    and segments :: "Segment list" and x2 xa
  assume le: "currentIdx \<le> endIdx"
    and f: "find (\<lambda>g. min_of (filterIndices g) = enat currentIdx) sortedGroups = Some x2"
    and xa: "xa = max_of (filterIndices x2)"
  from f have "min_of (filterIndices x2) = enat currentIdx"
    by (auto simp: find_Some_iff)
  then have "currentIdx \<le> max_of (filterIndices x2)" by (rule min_of_max_of)
  then show "((sortedGroups, endIdx, xa + 1, segments @ [GroupSeg x2 currentIdx xa]),
              (sortedGroups, endIdx, currentIdx, segments))
             \<in> measure (\<lambda>(sortedGroups, endIdx, currentIdx, segments). Suc endIdx - currentIdx)"
    using le xa by simp
next
  fix sortedGroups :: "FilterGroupDefinition list" and endIdx currentIdx :: nat
    and segments :: "Segment list" and x
  assume le: "currentIdx \<le> endIdx"
    and x: "x = run_end sortedGroups endIdx currentIdx"
  have "currentIdx \<le> run_end sortedGroups endIdx currentIdx" using le by (rule run_end_ge)
  then show "((sortedGroups, endIdx, x + 1, segments @ [FilterSeg currentIdx x]),
              (sortedGroups, endIdx, currentIdx, segments))
             \<in> measure (\<lambda>(sortedGroups, endIdx, currentIdx, segments). Suc endIdx - currentIdx)"
    using le x by simp
qed

declare segments_loop.simps [simp del]

definition segment_node :: "'a SimpleFilter_scheme list \<Rightarrow> Segment \<Rightarrow> GroupAwareASTNode option" where
  "segment_node filters seg =
     (case seg of
        GroupSeg grp s e \<Rightarrow> Some (buildGroupNode filters grp)
      | FilterSeg s e \<Rightarrow> buildFlatAST filters s e)"

text \<open>The loop that combines the segments, from \<open>i = 1\<close>.\<close>

function combine_loop ::
  "'a SimpleFilter_scheme list \<Rightarrow> Segment list \<Rightarrow> nat \<Rightarrow> GroupAwareASTNode \<Rightarrow> GroupAwareASTNode option" where
  "combine_loop filters segments i result =
     (if i < length segments then
        (case nth_opt filters (seg_start (segments ! i)) of
           None \<Rightarrow> None
         | Some f \<Rightarrow>
             (case segment_node filters (segments ! i) of
                None \<Rightarrow> None
              | Some nextNode \<Rightarrow>
                  combine_loop filters segments (Suc i)
                    (if logic_or_AND f = OR then g_should [result, nextNode]
                     else g_must [result, nextNode])))
      else Some result)"
  by pat_completeness auto
termination
  by (relation "measure (\<lambda>(filters, segments, i, result). length segments - i)") auto

declare combine_loop.simps [simp del]

definition buildASTWithGroups ::
  "'a SimpleFilter_scheme list \<Rightarrow> FilterGroupDefinition list \<Rightarrow> nat \<Rightarrow> nat
   \<Rightarrow> GroupAwareASTNode option" where
  "buildASTWithGroups filters groups startIdx endIdx =
     (let sortedGroups = sort_key (\<lambda>g. min_of (filterIndices g)) groups;
          segments = segments_loop sortedGroups endIdx startIdx []
      in if length segments = 1 then segment_node filters (segments ! 0)
         else (case nth_opt segments 0 of
                 None \<Rightarrow> None
               | Some seg0 \<Rightarrow>
                   (case segment_node filters seg0 of
                      None \<Rightarrow> None
                    | Some first \<Rightarrow> combine_loop filters segments 1 first)))"

section \<open>The filter builder's AST service: \<open>filter-ast.service.ts\<close>\<close>

text \<open>
  \<open>FilterClause\<close> and \<open>FilterRow\<close> of \<open>filter-builder.model.ts\<close>; the fields of a clause carry
  the prefix \<open>c_\<close> to keep them apart from those of \<open>SimpleFilter\<close>. A node is a
  \<open>ClauseNode\<close> or a \<open>GroupNode\<close>, each with its id. \<open>generateId\<close> reads the clock and a
  random number: the id it returns is a parameter of every function that creates a group.
\<close>

record FilterClause =
  c_id :: string
  c_field :: string
  c_operator :: string
  c_value :: jsval
  c_values :: "jsval list option"
  c_minValue :: jsval
  c_maxValue :: jsval
  c_minOperator :: "string option"
  c_maxOperator :: "string option"

record FilterRow =
  row_id :: string
  clause :: FilterClause
  logicOperator :: "LogicalOperator option"
  level :: nat
  row_parentGroupId :: "string option"

datatype ASTNode =
    ClauseNode string FilterClause
  | GroupNode string LogicalOperator "ASTNode list"

definition createClauseNode :: "FilterClause \<Rightarrow> ASTNode" where
  "createClauseNode c = ClauseNode (c_id c) c"

definition createGroupNode :: "string \<Rightarrow> LogicalOperator \<Rightarrow> ASTNode list \<Rightarrow> ASTNode" where
  "createGroupNode generatedId opr children = GroupNode generatedId opr children"

definition combineNodes :: "string \<Rightarrow> ASTNode \<Rightarrow> ASTNode \<Rightarrow> LogicalOperator \<Rightarrow> ASTNode" where
  "combineNodes generatedId left right opr =
     (case left of
        GroupNode i lop children \<Rightarrow>
          if lop = opr then GroupNode i lop (children @ [right])
          else createGroupNode generatedId opr [left, right]
      | ClauseNode i c \<Rightarrow> createGroupNode generatedId opr [left, right])"

text \<open>The loop of \<open>buildAST\<close>; \<open>gen i\<close> is the id \<open>generateId\<close> returns in round \<open>i\<close>.\<close>

function buildAST_loop :: "(nat \<Rightarrow> string) \<Rightarrow> FilterRow list \<Rightarrow> nat \<Rightarrow> ASTNode \<Rightarrow> ASTNode" where
  "buildAST_loop gen rows i result =
     (if i < length rows then
        buildAST_loop gen rows (Suc i)
          (combineNodes (gen i) result (createClauseNode (clause (rows ! i)))
             (op_or_AND (logicOperator (rows ! i))))
      else result)"
  by pat_completeness auto
termination
  by (relation "measure (\<lambda>(gen, rows, i, result). length rows - i)") auto

definition buildAST :: "(nat \<Rightarrow> string) \<Rightarrow> FilterRow list \<Rightarrow> ASTNode option" where
  "buildAST gen rows =
     (if length rows = 0 then None
      else if length rows = 1 then Some (createClauseNode (clause (rows ! 0)))
      else Some (buildAST_loop gen rows 1 (createClauseNode (clause (rows ! 0)))))"

definition clauseToQueryDSL :: "FilterClause \<Rightarrow> jsval" where
  "clauseToQueryDSL c =
     (if c_field c = [] then match_all
      else
        (let isKeyword = endsWith (c_field c) ''.keyword'';
             multi = (case c_values c of
                        Some vs \<Rightarrow> Arr vs
                      | None \<Rightarrow> if truthy (c_value c) then Arr [c_value c] else Arr [])
         in
         if c_operator c = ''is'' then
           (if isKeyword \<or> isNumeric (c_value c)
            then Obj [(''term'', Obj [(c_field c, convertValue isKeyword (c_value c))])]
            else Obj [(''match'', Obj [(c_field c, c_value c)])])
         else if c_operator c = ''is_not'' then
           (if isKeyword \<or> isNumeric (c_value c)
            then must_not_doc (Obj [(''term'', Obj [(c_field c, convertValue isKeyword (c_value c))])])
            else must_not_doc (Obj [(''match'', Obj [(c_field c, c_value c)])]))
         else if c_operator c = ''is_one_of'' then
           Obj [(''terms'', Obj [(c_field c, multi)])]
         else if c_operator c = ''is_not_one_of'' then
           must_not_doc (Obj [(''terms'', Obj [(c_field c, multi)])])
         else if c_operator c = ''exists'' then
           Obj [(''exists'', Obj [(''field'', Str (c_field c))])]
         else if c_operator c = ''does_not_exist'' then
           must_not_doc (Obj [(''exists'', Obj [(''field'', Str (c_field c))])])
         else if c_operator c = ''range'' then
           (let r1 = (if c_minValue c \<noteq> Undefined \<and> c_minValue c \<noteq> Str []
                      then obj_set [] (str_or (c_minOperator c) ''gte'')
                             (convertValue isKeyword (c_minValue c))
                      else []);
                r2 = (if c_maxValue c \<noteq> Undefined \<and> c_maxValue c \<noteq> Str []
                      then obj_set r1 (str_or (c_maxOperator c) ''lte'')
                             (convertValue isKeyword (c_maxValue c))
                      else r1)
            in if length r2 > 0 then Obj [(''range'', Obj [(c_field c, Obj r2)])] else match_all)
         else if c_operator c = ''prefix'' then
           (if isKeyword then Obj [(''prefix'', Obj [(c_field c, c_value c)])]
            else Obj [(''wildcard'', Obj [(c_field c,
                   Obj [(''value'', Str (to_string (c_value c) @ ''*'')),
                        (''case_insensitive'', Boolean True)])])])
         else if c_operator c = ''wildcard'' then
           Obj [(''wildcard'', Obj [(c_field c,
                  Obj [(''value'', c_value c), (''case_insensitive'', Boolean True)])])]
         else if c_operator c = ''query_string'' then
           Obj [(''query_string'',
                  Obj [(''default_field'', Str (c_field c)), (''query'', c_value c)])]
         else match_all))"

definition must_doc :: "jsval list \<Rightarrow> jsval" where
  "must_doc qs = Obj [(''bool'', Obj [(''must'', Arr qs)])]"

definition should_doc :: "jsval list \<Rightarrow> jsval" where
  "should_doc qs = Obj [(''bool'', Obj [(''should'', Arr qs), (''minimum_should_match'', Num 1)])]"

fun toQueryDSLRecursive :: "ASTNode \<Rightarrow> jsval" where
  "toQueryDSLRecursive (ClauseNode i c) = clauseToQueryDSL c"
| "toQueryDSLRecursive (GroupNode i opr children) =
     (let childrenQueries = keep_queries (map toQueryDSLRecursive children)
      in if length childrenQueries = 0 then match_all
         else if length childrenQueries = 1 then childrenQueries ! 0
         else if opr = OR then should_doc childrenQueries
         else must_doc childrenQueries)"

definition toQueryDSL :: "ASTNode option \<Rightarrow> jsval" where
  "toQueryDSL ast = (case ast of None \<Rightarrow> match_all | Some n \<Rightarrow> toQueryDSLRecursive n)"

section \<open>The filter bar component: \<open>kibana-filter-bar.component.ts\<close>\<close>

text \<open>
  The component at this path builds the query document and the preview text inline from
  the rows of its form; a row has the fields of \<open>SimpleFilter\<close> (the form has no
  \<open>disabled\<close> flag, and an empty \<open>logic\<close> is \<open>None\<close>). \<open>generateQueryDSL\<close> is modelled up to the
  document it hands to \<open>JSON.stringify\<close>, \<open>updatePreview\<close> up to \<open>previewText\<close> (the HTML
  twin of the text is left out).
\<close>

definition normalizeOperator :: "string \<Rightarrow> string" where
  "normalizeOperator opr =
     (case map_of
        [(''is'', ''is''), (''isNot'', ''is_not''), (''is_not'', ''is_not''),
         (''terms'', ''is_one_of''), (''is_one_of'', ''is_one_of''),
         (''notTerms'', ''is_not_one_of''), (''is_not_one_of'', ''is_not_one_of''),
         (''exists'', ''exists''), (''notExists'', ''does_not_exist''),
         (''does_not_exist'', ''does_not_exist''), (''range'', ''range''),
         (''prefix'', ''prefix''), (''wildcard'', ''wildcard''),
         (''query_string'', ''query_string''), (''queryString'', ''query_string'')] opr of
        Some v \<Rightarrow> v
      | None \<Rightarrow> opr)"

definition isKeywordField :: "string \<Rightarrow> bool" where
  "isKeywordField f = endsWith f ''.keyword''"

definition isDateField :: "string \<Rightarrow> bool" where
  "isDateField f =
     (f = ''@timestamp'' \<or> str_includes (toLowerCase f) ''date'' \<or>
      str_includes (toLowerCase f) ''time'')"

definition getRangeOperatorLabel :: "string \<Rightarrow> string" where
  "getRangeOperatorLabel opr =
     (if opr = ''gt'' then ''Greater Than''
      else if opr = ''gte'' then ''Greater Than/Equal To''
      else if opr = ''lt'' then ''Less Than''
      else if opr = ''lte'' then ''Less Than/Equal To''
      else opr)"

text \<open>
  The body of the first loop of \<open>generateQueryDSL\<close> for one row: the query it pushes, or
  \<open>None\<close> where it returns without pushing.
\<close>

definition row_query :: "'a SimpleFilter_scheme \<Rightarrow> jsval option" where
  "row_query f =
     (if \<not> (field f \<noteq> [] \<and> operator f \<noteq> []) then None
      else
        (let isKeyword = isKeywordField (field f);
             normalizedOperator = normalizeOperator (operator f);
             conv = convertValue isKeyword
         in
         if normalizedOperator = ''is'' then
           (if isKeyword \<or> isDateField (field f) \<or> isNumeric (fvalue f)
            then Some (Obj [(''term'', Obj [(field f, conv (fvalue f))])])
            else Some (Obj [(''match'', Obj [(field f, fvalue f)])]))
         else if normalizedOperator = ''is_not'' then
           (if isKeyword \<or> isDateField (field f) \<or> isNumeric (fvalue f)
            then Some (must_not_doc (Obj [(''term'', Obj [(field f, conv (fvalue f))])]))
            else Some (must_not_doc (Obj [(''match'', Obj [(field f, fvalue f)])])))
         else if normalizedOperator = ''is_one_of'' then
           Some (Obj [(''terms'', Obj [(field f, multi_values (fvalue f))])])
         else if normalizedOperator = ''is_not_one_of'' then
           Some (must_not_doc (Obj [(''terms'', Obj [(field f, multi_values (fvalue f))])]))
         else if normalizedOperator = ''exists'' then
           Some (Obj [(''exists'', Obj [(''field'', Str (field f))])])
         else if normalizedOperator = ''does_not_exist'' then
           Some (must_not_doc (Obj [(''exists'', Obj [(''field'', Str (field f))])]))
         else if normalizedOperator = ''range'' then
           (let r1 = (if truthy (minValue f)
                      then obj_set [] (str_or (minOperator f) ''gt'') (conv (minValue f))
                      else []);
                r2 = (if truthy (maxValue f)
                      then obj_set r1 (str_or (maxOperator f) ''lt'') (conv (maxValue f))
                      else r1)
            in if length r2 > 0 then Some (Obj [(''range'', Obj [(field f, Obj r2)])]) else None)
         else if normalizedOperator = ''prefix'' then
           (if \<not> truthy (fvalue f) then None
            else if isKeyword then Some (Obj [(''prefix'', Obj [(field f, fvalue f)])])
            else Some (Obj [(''wildcard'', Obj [(field f,
                   Obj [(''value'', Str (to_string (fvalue f) @ ''*'')),
                        (''case_insensitive'', Boolean True)])])]))
         else if normalizedOperator = ''wildcard'' then
           (if \<not> truthy (fvalue f) then None
            else Some (Obj [(''wildcard'', Obj [(field f,
                   Obj [(''value'', fvalue f), (''case_insensitive'', Boolean True)])])]))
         else if normalizedOperator = ''query_string'' then
           (if \<not> truthy (fvalue f) then None
            else Some (Obj [(''query_string'',
                   Obj [(''default_field'', Str (field f)), (''query'', fvalue f)])]))
         else None))"

text \<open>The list \<open>queries\<close>: the query of each row that pushed one, with \<open>filter.logic || 'AND'\<close>.\<close>

definition row_queries :: "'a SimpleFilter_scheme list \<Rightarrow> (jsval \<times> LogicalOperator) list" where
  "row_queries rows =
     List.map_filter (\<lambda>f. map_option (\<lambda>q. (q, logic_or_AND f)) (row_query f)) rows"

text \<open>A closed group: the query itself, or the \<open>should\<close> document of several.\<close>

definition close_group :: "jsval list \<Rightarrow> jsval" where
  "close_group currentGroup =
     (if length currentGroup = 1 then currentGroup ! 0 else should_doc currentGroup)"

text \<open>The second loop, over \<open>queries\<close> with their index, on the pair \<open>(groups, currentGroup)\<close>.\<close>

fun group_loop ::
  "nat \<Rightarrow> (jsval \<times> LogicalOperator) list \<Rightarrow> jsval list \<times> jsval list \<Rightarrow> jsval list \<times> jsval list" where
  "group_loop idx [] st = st"
| "group_loop idx ((q, l) # rest) (groups, currentGroup) =
     group_loop (Suc idx) rest
       (if idx = 0 then (groups, currentGroup @ [q])
        else if l = OR then (groups, currentGroup @ [q])
        else if length currentGroup > 0 then (groups @ [close_group currentGroup], [q])
        else (groups, currentGroup))"

definition generateQueryDSL :: "'a SimpleFilter_scheme list \<Rightarrow> jsval" where
  "generateQueryDSL rows =
     (let (groups0, currentGroup) = group_loop 0 (row_queries rows) ([], []);
          groups = (if length currentGroup > 0 then groups0 @ [close_group currentGroup]
                    else groups0)
      in
      if length groups = 1 \<and> truthy (obj_get (groups ! 0) ''bool'') \<and>
         truthy (obj_get (obj_get (groups ! 0) ''bool'') ''should'')
      then query_doc (Obj [(''bool'',
             Obj [(''should'', obj_get (obj_get (groups ! 0) ''bool'') ''should''),
                  (''minimum_should_match'',
                   js_or (obj_get (obj_get (groups ! 0) ''bool'') ''minimum_should_match'')
                     (Num 1))])])
      else if length groups = 1 then query_doc (groups ! 0)
      else query_doc (Obj [(''bool'', (if length groups > 0 then Obj [(''must'', Arr groups)]
                                          else Obj []))]))"

text \<open>An entry of \<open>filterExpressions\<close>: text, logic (\<open>''\<close> is \<open>None\<close>) and \<open>hasNot\<close>.\<close>

record FilterExpr =
  expr_text :: string
  expr_logic :: "LogicalOperator option"
  hasNot :: bool

definition row_expression :: "nat \<Rightarrow> 'a SimpleFilter_scheme \<Rightarrow> FilterExpr option" where
  "row_expression index f =
     (if \<not> (field f \<noteq> [] \<and> operator f \<noteq> []) then None
      else
        (let normalizedOperator = normalizeOperator (operator f);
             lg = (if index > 0 then Some (logic_or_AND f) else None);
             mk = (\<lambda>t n. Some \<lparr> expr_text = t, expr_logic = lg, hasNot = n \<rparr>)
         in
         if normalizedOperator = ''exists'' then mk (field f @ '': exists'') False
         else if normalizedOperator = ''does_not_exist'' then mk (field f @ '': exists'') True
         else if normalizedOperator = ''range'' then
           (let p1 = (if truthy (minValue f)
                      then [getRangeOperatorLabel (str_or (minOperator f) ''gt'') @ '' '' @
                            to_string (minValue f)]
                      else []);
                rangeParts = (if truthy (maxValue f)
                      then p1 @ [getRangeOperatorLabel (str_or (maxOperator f) ''lt'') @ '' '' @
                                 to_string (maxValue f)]
                      else p1)
            in if length rangeParts > 0
               then mk (field f @ '': '' @ join '' and '' rangeParts) False
               else mk (field f @ '': -'') False)
         else if normalizedOperator = ''prefix'' then
           mk (field f @ '': prefix '' @ quoted (dash_or (fvalue f))) False
         else if normalizedOperator = ''wildcard'' then
           mk (field f @ '': wildcard '' @ quoted (dash_or (fvalue f))) False
         else if normalizedOperator = ''query_string'' then
           mk (field f @ '': query_string '' @ quoted (dash_or (fvalue f))) False
         else if normalizedOperator = ''is_not'' then
           mk (field f @ '': '' @ dash_or (fvalue f)) True
         else if truthy (fvalue f) then mk (field f @ '': '' @ to_string (fvalue f)) False
         else mk (field f @ '': -'') False))"

text \<open>The grouping loop of \<open>updatePreview\<close> from \<open>i = 1\<close>, on \<open>(groups, currentGroup)\<close>.\<close>

fun expr_group_loop ::
  "FilterExpr list \<Rightarrow> FilterExpr list list \<times> FilterExpr list
   \<Rightarrow> FilterExpr list list \<times> FilterExpr list" where
  "expr_group_loop [] st = st"
| "expr_group_loop (e # rest) (groups, currentGroup) =
     expr_group_loop rest
       (if expr_logic e = Some OR then (groups, currentGroup @ [e])
        else (groups @ [currentGroup], [e]))"

definition expr_part :: "FilterExpr \<Rightarrow> string" where
  "expr_part e = (if hasNot e then ''NOT '' @ expr_text e else expr_text e)"

text \<open>The entries one group adds to \<open>textParts\<close>.\<close>

definition group_parts :: "nat \<Rightarrow> FilterExpr list \<Rightarrow> string list" where
  "group_parts groupIdx g =
     (if groupIdx > 0 then ['' AND''] else []) @
     (if length g = 1 then [expr_part (g ! 0)]
      else [''(''] @
           concat (map (\<lambda>(exprIdx, e). (if exprIdx > 0 then ['' OR''] else []) @ [expr_part e])
                       (List.enumerate 0 g)) @
           ['')''])"

definition updatePreview :: "'a SimpleFilter_scheme list \<Rightarrow> string" where
  "updatePreview rows =
     (if length rows = 0 then []
      else
        (let filterExpressions =
               List.map_filter (\<lambda>(index, f). row_expression index f) (List.enumerate 0 rows)
         in if length filterExpressions = 0 then []
            else
              (let (groups0, currentGroup) =
                     expr_group_loop (drop 1 filterExpressions) ([], [filterExpressions ! 0]);
                   groups = (if length currentGroup > 0 then groups0 @ [currentGroup] else groups0);
                   textParts = concat (map (\<lambda>(groupIdx, g). group_parts groupIdx g)
                                           (List.enumerate 0 groups))
               in join '' '' textParts)))"

subsection \<open>The same component on the utilities\<close>

text \<open>
  The repository holds a second version of the component (its path is not known) that
  converts the rows to \<open>SimpleFilter\<close>s and calls the utilities.
\<close>

definition convertToSimpleFilters :: "'a SimpleFilter_scheme list \<Rightarrow> SimpleFilter list" where
  "convertToSimpleFilters formFilters =
     map (\<lambda>f. \<lparr> field = field f, operator = normalizeOperator (operator f), fvalue = fvalue f,
                 logic = Some (logic_or_AND f), disabled = False,
                 minValue = minValue f, maxValue = maxValue f,
                 minOperator = Some (str_or (minOperator f) ''gt''),
                 maxOperator = Some (str_or (maxOperator f) ''lt'') \<rparr>)
         (filter (\<lambda>f. field f \<noteq> [] \<and> operator f \<noteq> []) formFilters)"

definition generateQueryDSL_utils :: "'a SimpleFilter_scheme list \<Rightarrow> jsval" where
  "generateQueryDSL_utils rows =
     (if length rows = 0 then query_doc match_all
      else
        (let simpleFilters = convertToSimpleFilters rows
         in if length simpleFilters = 0 then query_doc match_all
            else buildEsQueryFromFilters simpleFilters))"

definition updatePreview_utils :: "'a SimpleFilter_scheme list \<Rightarrow> string" where
  "updatePreview_utils rows =
     (if length rows = 0 then []
      else
        (let simpleFilters = convertToSimpleFilters rows
         in if length simpleFilters = 0 then []
            else buildPreviewString simpleFilters))"

section \<open>The group manager: \<open>filter-group-manager.component.ts\<close>\<close>

text \<open>
  The component holds the clauses and the groups as inputs (\<open>m_filters\<close>, \<open>m_groups\<close>), the
  selection and the separators. It never assigns to its \<open>groups\<close>: a new list of groups
  leaves through the output \<open>groupsChanged\<close>. An operation is a function from the state
  to the new state and the events it emitted, in order; \<open>console.warn\<close> is an event as
  well. The id that \<open>createGroupFromSelection\<close> makes from the clock and a random number
  is a parameter.
\<close>

record FilterSeparator =
  sep_position :: string
  sep_index :: nat
  sep_type :: LogicalOperator
  isGroupBoundary :: bool
  sep_groupId :: "string option"

record Manager =
  m_filters :: "GroupedFilter list"
  m_groups :: "FilterGroupDefinition list"
  m_customLabel :: "string option"
  selectedIndices :: "nat list"
  lastClickedIndex :: "nat option"
  separators :: "FilterSeparator list"

datatype event =
    GroupsChanged "FilterGroupDefinition list"
  | FiltersChanged "GroupedFilter list" "FilterGroupDefinition list" "string option"
  | FilterRemoved nat
  | ConsoleWarn string


definition emitFilterState :: "Manager \<Rightarrow> event" where
  "emitFilterState s = FiltersChanged (m_filters s) (m_groups s) (m_customLabel s)"

text \<open>\<open>sortedIndices.every((idx, i) => i === 0 || idx === sortedIndices[i - 1] + 1)\<close>.\<close>

definition isContiguous :: "nat list \<Rightarrow> bool" where
  "isContiguous sortedIndices =
     list_all (\<lambda>i. i = 0 \<or> sortedIndices ! i = sortedIndices ! (i - 1) + 1)
       [0..<length sortedIndices]"

text \<open>One round of the \<open>forEach\<close> of \<open>updateFilterMetadata\<close>, for the \<open>i\<close>-th index \<open>idx\<close>.\<close>

definition tag_member ::
  "string \<Rightarrow> LogicalOperator \<Rightarrow> nat \<Rightarrow> nat \<times> nat \<Rightarrow> GroupedFilter list \<Rightarrow> GroupedFilter list" where
  "tag_member gid gtype n p fs =
     (if snd p < length fs
      then fs[snd p := (fs ! snd p)\<lparr> groupMeta :=
             Some \<lparr> groupId = Some gid, groupType = Some gtype,
                    isGroupStart = Some (fst p = 0), isGroupEnd = Some (fst p = n - 1),
                    meta_parentGroupId = None \<rparr> \<rparr>]
      else fs)"

definition updateFilterMetadata ::
  "nat list \<Rightarrow> string \<Rightarrow> LogicalOperator \<Rightarrow> GroupedFilter list \<Rightarrow> GroupedFilter list" where
  "updateFilterMetadata indices gid gtype fs =
     fold (tag_member gid gtype (length indices)) (List.enumerate 0 indices) fs"

definition clearSelection :: "Manager \<Rightarrow> Manager" where
  "clearSelection s = s\<lparr> selectedIndices := [], lastClickedIndex := None \<rparr>"

definition createGroupFromSelection ::
  "string \<Rightarrow> LogicalOperator \<Rightarrow> Manager \<Rightarrow> Manager \<times> event list" where
  "createGroupFromSelection generatedId gtype s =
     (if length (selectedIndices s) < 2 then (s, [])
      else
        (let sortedIndices = sort (selectedIndices s)
         in if \<not> isContiguous sortedIndices
            then (s, [ConsoleWarn ''Cannot create group with non-contiguous filters''])
            else
              (let newGroup = \<lparr> group_id = generatedId, group_type = gtype,
                                filterIndices = sortedIndices, parentGroupId = None \<rparr>;
                   filteredGroups =
                     filter (\<lambda>g. \<not> list_ex (\<lambda>idx. idx \<in> set (filterIndices g)) sortedIndices)
                       (m_groups s);
                   updatedGroups = filteredGroups @ [newGroup];
                   s1 = s\<lparr> m_filters :=
                           updateFilterMetadata sortedIndices generatedId gtype (m_filters s) \<rparr>
               in (clearSelection s1, [GroupsChanged updatedGroups, emitFilterState s1]))))"

definition determineSeparator :: "Manager \<Rightarrow> nat \<Rightarrow> FilterSeparator" where
  "determineSeparator s index =
     (let prevFilter = m_filters s ! (index - 1);
          currFilter = m_filters s ! index;
          prevGroupId = (case groupMeta prevFilter of Some gm \<Rightarrow> groupId gm | None \<Rightarrow> None);
          currGroupId = (case groupMeta currFilter of Some gm \<Rightarrow> groupId gm | None \<Rightarrow> None)
      in if prevGroupId \<noteq> None \<and> prevGroupId \<noteq> Some [] \<and> currGroupId \<noteq> None \<and>
            currGroupId \<noteq> Some [] \<and> prevGroupId = currGroupId
         then \<lparr> sep_position = ''before'', sep_index = index,
                sep_type = (case find (\<lambda>g. Some (group_id g) = prevGroupId) (m_groups s) of
                              Some g \<Rightarrow> group_type g
                            | None \<Rightarrow> AND),
                isGroupBoundary = False, sep_groupId = prevGroupId \<rparr>
         else \<lparr> sep_position = ''before'', sep_index = index,
                sep_type = logic_or_AND currFilter,
                isGroupBoundary =
                  ((prevGroupId \<noteq> None \<and> prevGroupId \<noteq> Some []) \<or>
                   (currGroupId \<noteq> None \<and> currGroupId \<noteq> Some [])),
                sep_groupId = currGroupId \<rparr>)"

definition calculateSeparators :: "Manager \<Rightarrow> Manager" where
  "calculateSeparators s =
     (if length (m_filters s) \<le> 1 then s\<lparr> separators := [] \<rparr>
      else s\<lparr> separators := map (determineSeparator s) [1..<length (m_filters s)] \<rparr>)"

text \<open>Clearing the metadata of one member of a group, where the clause exists.\<close>

definition clear_member :: "nat \<Rightarrow> GroupedFilter list \<Rightarrow> GroupedFilter list" where
  "clear_member idx fs = (if idx < length fs then fs[idx := (fs ! idx)\<lparr> groupMeta := None \<rparr>] else fs)"

definition removeGroup :: "string \<Rightarrow> Manager \<Rightarrow> Manager \<times> event list" where
  "removeGroup gid s =
     (case find (\<lambda>g. group_id g = gid) (m_groups s) of
        None \<Rightarrow> (s, [])
      | Some grp \<Rightarrow>
          (let s1 = s\<lparr> m_filters := fold clear_member (filterIndices grp) (m_filters s) \<rparr>;
               updatedGroups = filter (\<lambda>g. group_id g \<noteq> gid) (m_groups s)
           in (calculateSeparators s1, [GroupsChanged updatedGroups, emitFilterState s1])))"



text \<open>
  The group id of the clause at \<open>index\<close> as \<open>removeFilter\<close> tests it: absent clause,
  absent metadata, absent or empty id all are falsy.
\<close>

definition filter_group_id :: "Manager \<Rightarrow> nat \<Rightarrow> string option" where
  "filter_group_id s index =
     (case nth_opt (m_filters s) index of
        None \<Rightarrow> None
      | Some f \<Rightarrow>
          (case groupMeta f of
             None \<Rightarrow> None
           | Some gm \<Rightarrow> (case groupId gm of Some i \<Rightarrow> if i = [] then None else Some i | None \<Rightarrow> None)))"

definition updated_indices :: "nat \<Rightarrow> nat list \<Rightarrow> nat list" where
  "updated_indices index indices =
     map (\<lambda>idx. if idx > index then idx - 1 else idx) (filter (\<lambda>idx. idx \<noteq> index) indices)"

definition removeFilter :: "nat \<Rightarrow> Manager \<Rightarrow> Manager \<times> event list" where
  "removeFilter index s =
     (let (s1, evs) =
        (case filter_group_id s index of
           None \<Rightarrow> (s, [])
         | Some gid \<Rightarrow>
             (case find (\<lambda>g. group_id g = gid) (m_groups s) of
                None \<Rightarrow> (s, [])
              | Some grp \<Rightarrow>
                  (let updatedIndices = updated_indices index (filterIndices grp)
                   in if length updatedIndices < 2 then removeGroup gid s
                      else
                        (let updatedGroup = grp\<lparr> filterIndices := updatedIndices \<rparr>;
                             updatedGroups =
                               map (\<lambda>g. if group_id g = gid then updatedGroup else g) (m_groups s)
                         in (s, [GroupsChanged updatedGroups])))))
      in (clearSelection s1, evs @ [FilterRemoved index]))"

section \<open>The fold of the design, in the specification's words\<close>

text \<open>
  The tree of the specification (\<open>Leaf{clause}\<close> or \<open>Bool{operator, children}\<close>) and its fold:
  start with the leaf of the first clause; for each further clause \<open>c\<close> with connector
  \<open>op\<close>, append \<open>Leaf c\<close> when the result is a \<open>Bool\<close> with operator \<open>op\<close>, else wrap the
  result and \<open>Leaf c\<close> in a new \<open>Bool op\<close>. The connector of the first clause is not read.
\<close>

datatype 'c Node = Leaf 'c | Bool LogicalOperator "'c Node list"

definition spec_step :: "'c Node \<Rightarrow> LogicalOperator \<times> 'c \<Rightarrow> 'c Node" where
  "spec_step result oc =
     (case result of
        Bool bop children \<Rightarrow>
          if bop = fst oc then Bool bop (children @ [Leaf (snd oc)])
          else Bool (fst oc) [result, Leaf (snd oc)]
      | Leaf x \<Rightarrow> Bool (fst oc) [result, Leaf (snd oc)])"

definition spec_build :: "(LogicalOperator \<times> 'c) list \<Rightarrow> 'c Node option" where
  "spec_build cs = (case cs of [] \<Rightarrow> None | oc # rest \<Rightarrow> Some (foldl spec_step (Leaf (snd oc)) rest))"

text \<open>The two trees of the code as trees of the specification.\<close>

fun utils_node :: "KibanaFilter Node \<Rightarrow> FilterASTNode" where
  "utils_node (Leaf k) = FilterNode (Some k)"
| "utils_node (Bool AND children) = must_node (map utils_node children)"
| "utils_node (Bool OR children) = should_node (map utils_node children)"

fun erase_ids :: "ASTNode \<Rightarrow> FilterClause Node" where
  "erase_ids (ClauseNode i c) = Leaf c"
| "erase_ids (GroupNode i opr children) = Bool opr (map erase_ids children)"

section \<open>Auxiliary definitions for the statements\<close>

definition is_not_inner :: "'a SimpleFilter_scheme \<Rightarrow> jsval" where
  "is_not_inner f =
     (if endsWith (field f) ''.keyword'' \<or> isNumeric (fvalue f)
      then Obj [(''term'', Obj [(field f, convertValue (endsWith (field f) ''.keyword'') (fvalue f))])]
      else Obj [(''match'', Obj [(field f, fvalue f)])])"

definition status_is_not_deleted :: SimpleFilter where
  "status_is_not_deleted =
     \<lparr> field = ''status'', operator = ''is_not'', fvalue = Str ''deleted'', logic = Some AND,
       disabled = False, minValue = Undefined, maxValue = Undefined,
       minOperator = None, maxOperator = None \<rparr>"

definition utils_clauses :: "'a SimpleFilter_scheme list \<Rightarrow> (LogicalOperator \<times> KibanaFilter) list" where
  "utils_clauses filters =
     map (\<lambda>f. (logic_or_AND f, toKibanaFilter f)) (filter (\<lambda>f. \<not> disabled f) filters)"

definition row_clauses :: "FilterRow list \<Rightarrow> (LogicalOperator \<times> FilterClause) list" where
  "row_clauses rows = map (\<lambda>r. (op_or_AND (logicOperator r), clause r)) rows"

text \<open>Example clauses.\<close>

definition simple :: "string \<Rightarrow> string \<Rightarrow> jsval \<Rightarrow> LogicalOperator option \<Rightarrow> SimpleFilter" where
  "simple f opr v l =
     \<lparr> field = f, operator = opr, fvalue = v, logic = l, disabled = False,
       minValue = Undefined, maxValue = Undefined, minOperator = None, maxOperator = None \<rparr>"

definition status_active :: SimpleFilter where
  "status_active = simple ''status'' ''is'' (Str ''active'') None"

definition type_user :: "LogicalOperator \<Rightarrow> SimpleFilter" where
  "type_user l = simple ''type'' ''is'' (Str ''user'') (Some l)"

definition type_admin :: "LogicalOperator \<Rightarrow> SimpleFilter" where
  "type_admin l = simple ''type'' ''is'' (Str ''admin'') (Some l)"

definition category_premium :: "LogicalOperator \<Rightarrow> SimpleFilter" where
  "category_premium l = simple ''category'' ''is'' (Str ''premium'') (Some l)"

text \<open>The query document of one clause as a leaf of the utilities' tree.\<close>

definition leaf_query :: "'a SimpleFilter_scheme \<Rightarrow> jsval" where
  "leaf_query f = astToEsQuery_node (FilterNode (Some (toKibanaFilter f)))"

text \<open>A document that the filter over compiled children keeps.\<close>

definition kept :: "jsval \<Rightarrow> bool" where
  "kept q = (truthy q \<and> \<not> isEmptyQuery q)"

text \<open>The text of one row in the inline preview of the component.\<close>

definition row_text :: "nat \<Rightarrow> 'a SimpleFilter_scheme \<Rightarrow> string" where
  "row_text index f = (case row_expression index f of Some e \<Rightarrow> expr_part e | None \<Rightarrow> [])"

definition bytes_range :: "jsval \<Rightarrow> jsval \<Rightarrow> SimpleFilter" where
  "bytes_range lo hi = (simple ''bytes'' ''range'' Undefined (Some AND))\<lparr> minValue := lo, maxValue := hi \<rparr>"

text \<open>
  The bounds of a range clause as C10 words them: a side is present iff its value is truthy,
  under its operator, \<open>gt\<close> and \<open>lt\<close> by default.
\<close>

definition truthy_bounds :: "'a SimpleFilter_scheme \<Rightarrow> (string \<times> jsval) list" where
  "truthy_bounds f =
     (if truthy (minValue f)
      then [(str_or (minOperator f) ''gt'',
             convertValue (endsWith (field f) ''.keyword'') (minValue f))]
      else []) @
     (if truthy (maxValue f)
      then [(str_or (maxOperator f) ''lt'',
             convertValue (endsWith (field f) ''.keyword'') (maxValue f))]
      else [])"

text \<open>Example clauses of the filter builder.\<close>

definition clause_status_active :: FilterClause where
  "clause_status_active =
     \<lparr> c_id = ''c1'', c_field = ''status'', c_operator = ''is'', c_value = Str ''active'',
       c_values = None, c_minValue = Undefined, c_maxValue = Undefined,
       c_minOperator = None, c_maxOperator = None \<rparr>"

definition clause_bytes_unset :: FilterClause where
  "clause_bytes_unset =
     \<lparr> c_id = ''c2'', c_field = ''bytes'', c_operator = ''range'', c_value = Undefined,
       c_values = None, c_minValue = Undefined, c_maxValue = Undefined,
       c_minOperator = None, c_maxOperator = None \<rparr>"

text \<open>
  The stitching of segment subtrees as C5 words it (the fold of the implicit builder on
  subtrees: a result that already carries the joining operator is extended), and the
  stitching the code performs (the result and the next subtree always become the two
  children of a new node).
\<close>

definition spec_join :: "'c Node \<Rightarrow> LogicalOperator \<times> 'c Node \<Rightarrow> 'c Node" where
  "spec_join result os =
     (case result of
        Bool bop children \<Rightarrow>
          if bop = fst os then Bool bop (children @ [snd os])
          else Bool (fst os) [result, snd os]
      | Leaf x \<Rightarrow> Bool (fst os) [result, snd os])"

fun g_node :: "KibanaFilter Node \<Rightarrow> GroupAwareASTNode" where
  "g_node (Leaf k) = GFilterNode (Some k)"
| "g_node (Bool AND children) = g_must (map g_node children)"
| "g_node (Bool OR children) = g_should (map g_node children)"

definition g_wrap :: "LogicalOperator \<Rightarrow> GroupAwareASTNode list \<Rightarrow> GroupAwareASTNode" where
  "g_wrap opr cs = (case opr of AND \<Rightarrow> g_must cs | OR \<Rightarrow> g_should cs)"

definition stitch ::
  "'a SimpleFilter_scheme list \<Rightarrow> GroupAwareASTNode option \<Rightarrow> Segment \<Rightarrow> GroupAwareASTNode option" where
  "stitch filters acc seg =
     (case acc of
        None \<Rightarrow> None
      | Some result \<Rightarrow>
          (case nth_opt filters (seg_start seg) of
             None \<Rightarrow> None
           | Some f \<Rightarrow>
               map_option (\<lambda>nextNode. g_wrap (logic_or_AND f) [result, nextNode])
                 (segment_node filters seg)))"

definition group_members :: "'a SimpleFilter_scheme list \<Rightarrow> FilterGroupDefinition \<Rightarrow> nat list" where
  "group_members filters g = filter (\<lambda>idx. idx < length filters) (filterIndices g)"

definition and_group_01 :: FilterGroupDefinition where
  "and_group_01 = \<lparr> group_id = ''g1'', group_type = AND, filterIndices = [0, 1], parentGroupId = None \<rparr>"

text \<open>
  The groups an operation of the manager leaves behind: the list of its last
  \<open>groupsChanged\<close> event, or the unchanged input when it emitted none.
\<close>

fun emitted_groups :: "event list \<Rightarrow> FilterGroupDefinition list option" where
  "emitted_groups [] = None"
| "emitted_groups (e # es) =
     (case emitted_groups es of
        Some gs \<Rightarrow> Some gs
      | None \<Rightarrow> (case e of GroupsChanged gs \<Rightarrow> Some gs | _ \<Rightarrow> None))"

definition groups_after :: "Manager \<times> event list \<Rightarrow> FilterGroupDefinition list" where
  "groups_after r = (case emitted_groups (snd r) of Some gs \<Rightarrow> gs | None \<Rightarrow> m_groups (fst r))"





text \<open>An example state: five clauses, an \<open>OR\<close> group over 0, 1, 2 and an \<open>AND\<close> group over 3, 4.\<close>

definition member_of :: "string \<Rightarrow> LogicalOperator \<Rightarrow> bool \<Rightarrow> bool \<Rightarrow> GroupedFilterMetadata option" where
  "member_of gid t st en =
     Some \<lparr> groupId = Some gid, groupType = Some t, isGroupStart = Some st, isGroupEnd = Some en,
            meta_parentGroupId = None \<rparr>"

definition grouped :: "string \<Rightarrow> string \<Rightarrow> GroupedFilterMetadata option \<Rightarrow> GroupedFilter" where
  "grouped f v gm =
     \<lparr> field = f, operator = ''is'', fvalue = Str v, logic = Some AND, disabled = False,
       minValue = Undefined, maxValue = Undefined, minOperator = None, maxOperator = None,
       groupMeta = gm, filter_negate = None \<rparr>"

definition group_012 :: FilterGroupDefinition where
  "group_012 = \<lparr> group_id = ''g1'', group_type = OR, filterIndices = [0, 1, 2], parentGroupId = None \<rparr>"

definition group_34 :: FilterGroupDefinition where
  "group_34 = \<lparr> group_id = ''g2'', group_type = AND, filterIndices = [3, 4], parentGroupId = None \<rparr>"

definition five_clauses :: "GroupedFilter list" where
  "five_clauses =
     [grouped ''A'' ''1'' (member_of ''g1'' OR True False),
      grouped ''B'' ''2'' (member_of ''g1'' OR False False),
      grouped ''C'' ''3'' (member_of ''g1'' OR False True),
      grouped ''D'' ''4'' (member_of ''g2'' AND True False),
      grouped ''E'' ''5'' (member_of ''g2'' AND False True)]"

definition two_groups :: "nat list \<Rightarrow> Manager" where
  "two_groups sel =
     \<lparr> m_filters = five_clauses, m_groups = [group_012, group_34], m_customLabel = None,
       selectedIndices = sel, lastClickedIndex = None, separators = [] \<rparr>"

definition three_ungrouped :: "nat list \<Rightarrow> Manager" where
  "three_ungrouped sel =
     \<lparr> m_filters = [grouped ''A'' ''1'' None, grouped ''B'' ''2'' None, grouped ''C'' ''3'' None],
       m_groups = [], m_customLabel = None,
       selectedIndices = sel, lastClickedIndex = None, separators = [] \<rparr>"






section \<open>Properties of the filter utilities\<close>

subsection \<open>Negated clauses\<close>

lemma buildSingleFilterQuery_is_not:
  "operator f = ''is_not'' \<Longrightarrow> buildSingleFilterQuery f = must_not_doc (is_not_inner f)"
  by (simp add: buildSingleFilterQuery_def is_not_inner_def Let_def)

lemma truthy_must_not_doc: "truthy (must_not_doc q)"
  by (simp add: must_not_doc_def)

lemma leaf_is_not:
  "operator f = ''is_not'' \<Longrightarrow>
   astToEsQuery_node (FilterNode (Some (toKibanaFilter f))) =
     must_not_doc (must_not_doc (is_not_inner f))"
  by (simp add: toKibanaFilter_def buildSingleFilterQuery_is_not isNegatedOperator_def
      js_or_def truthy_must_not_doc)

text \<open>
  C1 (\<open>is_not\<close> is negated exactly once by the pipeline). The code does otherwise:
  \<open>buildSingleFilterQuery\<close> already returns \<open>must_not[term(f,v)]\<close> (or \<open>must_not[match(f,v)]\<close>),
  \<open>toKibanaFilter\<close> sets \<open>meta.negate\<close> for the same operator, and \<open>astToEsQuery\<close> wraps the
  query of a negated filter in \<open>must_not\<close> again. For every enabled clause with operator
  \<open>is_not\<close> the leaf compiles to \<open>must_not[must_not[term(f,v)]]\<close> (or
  \<open>must_not[must_not[match(f,v)]]\<close>), and so does the pipeline \<open>buildEsQueryFromFilters\<close> on
  that clause alone.
\<close>

theorem C1_is_not_wrapped_twice:
  assumes "operator f = ''is_not''" and "\<not> disabled f"
  shows "astToEsQuery_node (FilterNode (Some (toKibanaFilter f))) =
           must_not_doc (must_not_doc (is_not_inner f))
         \<and> buildEsQueryFromFilters [f] = query_doc (must_not_doc (must_not_doc (is_not_inner f)))
         \<and> buildEsQueryFromFilters [f] \<noteq> query_doc (must_not_doc (is_not_inner f))"
proof -
  have leaf: "astToEsQuery_node (FilterNode (Some (toKibanaFilter f))) =
      must_not_doc (must_not_doc (is_not_inner f))"
    using assms(1) by (rule leaf_is_not)
  have ast: "buildFilterASTWithOperators [f] = Some (FilterNode (Some (toKibanaFilter f)))"
    using assms(2) by (simp add: buildFilterASTWithOperators_def buildASTLeftAssociative_def)
  have pipe: "buildEsQueryFromFilters [f] = query_doc (must_not_doc (must_not_doc (is_not_inner f)))"
    by (simp add: buildEsQueryFromFilters_def ast astToEsQuery_def leaf del: astToEsQuery_node.simps)
  have "must_not_doc (must_not_doc (is_not_inner f)) \<noteq> must_not_doc (is_not_inner f)"
    by (simp add: must_not_doc_def is_not_inner_def)
  with leaf pipe show ?thesis by (simp add: query_doc_def)
qed

theorem C1_is_not_wrapped_twice_witness:
  "buildEsQueryFromFilters [status_is_not_deleted] =
     Obj [(''query'', Obj [(''bool'', Obj [(''must_not'', Arr [
       Obj [(''bool'', Obj [(''must_not'', Arr [
         Obj [(''match'', Obj [(''status'', Str ''deleted'')])]])])]])])])]"
  using C1_is_not_wrapped_twice [of status_is_not_deleted]
  by (simp add: status_is_not_deleted_def is_not_inner_def endsWith_def isNumeric_def
      numeric_re_def trim_def is_space_def is_digit_def must_not_doc_def query_doc_def)


subsection \<open>The implicit builders and the fold of the design\<close>


lemma spec_step_top: "\<exists>cs. spec_step R (opr, k) = Bool opr cs"
  by (cases R) (auto simp: spec_step_def)

lemma lassoc_step_leaf:
  "lassoc_step None (Some opr) (FilterNode (Some k)) (FilterNode (Some x)) =
     utils_node (spec_step (Leaf x) (opr, k))"
  by (cases opr) (simp_all add: lassoc_step_def spec_step_def)

lemma lassoc_step_bool:
  "lassoc_step (Some bop) (Some opr) (FilterNode (Some k)) (utils_node (Bool bop cs)) =
     utils_node (spec_step (Bool bop cs) (opr, k))"
  by (cases opr; cases bop) (simp_all add: lassoc_step_def spec_step_def must_node_def should_node_def)

lemma lassoc_loop_spec:
  assumes "length ops + 1 = length kfs" and "1 \<le> i" and "i \<le> length kfs"
    and "i = 1 \<Longrightarrow> \<exists>x. R = Leaf x"
    and "2 \<le> i \<Longrightarrow> \<exists>cs. R = Bool (ops ! (i - 2)) cs"
  shows "lassoc_loop kfs ops i (utils_node R) =
           utils_node (foldl spec_step R (drop (i - 1) (zip ops (tl kfs))))"
  using assms
proof (induction "length kfs - i" arbitrary: i R)
  case 0
  then have "i = length kfs" by simp
  then show ?case using 0 by (simp add: lassoc_loop.simps[of kfs ops i])
next
  case (Suc n)
  then have lt: "i < length kfs" by simp
  have len: "length (zip ops (tl kfs)) = length ops" using Suc.prems(1) by simp
  have i1: "i - 1 < length ops" using lt Suc.prems by simp
  have dr: "drop (i - 1) (zip ops (tl kfs)) = (ops ! (i - 1), kfs ! i) # drop i (zip ops (tl kfs))"
  proof -
    have il: "i - 1 < length (zip ops (tl kfs))" using i1 len by simp
    then have "drop (i - 1) (zip ops (tl kfs)) = (zip ops (tl kfs)) ! (i - 1) # drop (Suc (i - 1)) (zip ops (tl kfs))"
      by (rule Cons_nth_drop_Suc[symmetric])
    moreover have "(zip ops (tl kfs)) ! (i - 1) = (ops ! (i - 1), kfs ! i)"
      using il i1 Suc.prems(1,2) by (simp add: nth_tl)
    ultimately show ?thesis using Suc.prems(2) by simp
  qed
  let ?R' = "spec_step R (ops ! (i - 1), kfs ! i)"
  have step: "lassoc_step (if i > 1 then nth_opt ops (i - 2) else None) (nth_opt ops (i - 1))
               (FilterNode (Some (kfs ! i))) (utils_node R) = utils_node ?R'"
  proof (cases "i = 1")
    case True
    then obtain x where "R = Leaf x" using Suc.prems(4) by blast
    then show ?thesis using True i1 by (simp add: nth_opt_def lassoc_step_leaf)
  next
    case False
    then have i2: "2 \<le> i" using Suc.prems(2) by simp
    then obtain cs where "R = Bool (ops ! (i - 2)) cs" using Suc.prems(5) by blast
    moreover have "i - 2 < length ops" using i1 by simp
    ultimately show ?thesis using i2 i1 by (simp add: nth_opt_def lassoc_step_bool)
  qed
  have top: "\<exists>cs. ?R' = Bool (ops ! (Suc i - 2)) cs"
    using spec_step_top[of R "ops ! (i - 1)" "kfs ! i"] Suc.prems(2)
    by (simp add: numeral_2_eq_2)
  have IH: "lassoc_loop kfs ops (Suc i) (utils_node ?R') =
      utils_node (foldl spec_step ?R' (drop (Suc i - 1) (zip ops (tl kfs))))"
  proof (rule Suc.hyps(1))
    show "n = length kfs - Suc i" using Suc.hyps(2) by simp
    show "length ops + 1 = length kfs" by (rule Suc.prems(1))
    show "1 \<le> Suc i" by simp
    show "Suc i \<le> length kfs" using lt by simp
    show "Suc i = 1 \<Longrightarrow> \<exists>x. ?R' = Leaf x" using Suc.prems(2) by simp
    show "2 \<le> Suc i \<Longrightarrow> \<exists>cs. ?R' = Bool (ops ! (Suc i - 2)) cs" using top by simp
  qed
  show ?case
    using lt step IH dr by (simp add: lassoc_loop.simps[of kfs ops i])
qed


lemma buildASTLeftAssociative_spec:
  assumes "length ops + 1 = length kfs"
  shows "buildASTLeftAssociative kfs ops =
           map_option utils_node (spec_build (zip (x # ops) kfs))"
proof (cases kfs)
  case Nil
  then show ?thesis using assms by simp
next
  case (Cons k ks)
  show ?thesis
  proof (cases ks)
    case Nil
    then show ?thesis using Cons assms
      by (simp add: buildASTLeftAssociative_def spec_build_def)
  next
    case (Cons k' ks')
    have "lassoc_loop kfs ops 1 (utils_node (Leaf k)) =
            utils_node (foldl spec_step (Leaf k) (drop (1 - 1) (zip ops (tl kfs))))"
      using assms \<open>kfs = k # ks\<close> Cons by (intro lassoc_loop_spec) auto
    then show ?thesis using \<open>kfs = k # ks\<close> Cons
      by (simp add: buildASTLeftAssociative_def spec_build_def)
  qed
qed

lemma zip_map_same: "zip (map f xs) (map g xs) = map (\<lambda>x. (f x, g x)) xs"
  by (induction xs) auto

lemma buildFilterASTWithOperators_spec:
  "buildFilterASTWithOperators filters = map_option utils_node (spec_build (utils_clauses filters))"
proof (cases "filter (\<lambda>f. \<not> disabled f) filters")
  case Nil
  then show ?thesis
    by (simp add: buildFilterASTWithOperators_def utils_clauses_def spec_build_def)
next
  case (Cons e es)
  then have ne: "filters \<noteq> []" by auto
  let ?kfs = "map toKibanaFilter (e # es)"
  let ?ops = "map logic_or_AND es"
  have "buildASTLeftAssociative ?kfs ?ops =
          map_option utils_node (spec_build (zip (logic_or_AND e # ?ops) ?kfs))"
    by (rule buildASTLeftAssociative_spec) simp
  moreover have "zip (logic_or_AND e # ?ops) ?kfs = utils_clauses filters"
    using zip_map_same[of logic_or_AND "e # es" toKibanaFilter] Cons
    by (simp add: utils_clauses_def)
  ultimately show ?thesis using Cons ne
    by (simp add: buildFilterASTWithOperators_def)
qed

lemma erase_combineNodes:
  "erase_ids (combineNodes g L (createClauseNode c) opr) = spec_step (erase_ids L) (opr, c)"
  by (cases L) (simp_all add: combineNodes_def createClauseNode_def createGroupNode_def spec_step_def)

lemma buildAST_loop_spec:
  "i \<le> length rows \<Longrightarrow>
   erase_ids (buildAST_loop gen rows i R) =
     foldl spec_step (erase_ids R) (row_clauses (drop i rows))"
proof (induction "length rows - i" arbitrary: i R)
  case 0
  then show ?case by (simp add: buildAST_loop.simps[of gen rows i] row_clauses_def)
next
  case (Suc n)
  then have lt: "i < length rows" by simp
  have dr: "drop i rows = rows ! i # drop (Suc i) rows"
    using lt by (rule Cons_nth_drop_Suc[symmetric])
  have "erase_ids (buildAST_loop gen rows (Suc i)
          (combineNodes (gen i) R (createClauseNode (clause (rows ! i)))
             (op_or_AND (logicOperator (rows ! i))))) =
        foldl spec_step
          (erase_ids (combineNodes (gen i) R (createClauseNode (clause (rows ! i)))
             (op_or_AND (logicOperator (rows ! i)))))
          (row_clauses (drop (Suc i) rows))"
    using Suc.hyps(2) lt by (intro Suc.hyps(1)) auto
  then show ?case
    using lt by (simp add: buildAST_loop.simps[of gen rows i] erase_combineNodes dr[unfolded row_clauses_def] row_clauses_def)
qed

lemma buildAST_spec:
  "map_option erase_ids (buildAST gen rows) = spec_build (row_clauses rows)"
proof (cases rows)
  case Nil
  then show ?thesis by (simp add: buildAST_def spec_build_def row_clauses_def)
next
  case (Cons r rs)
  show ?thesis
  proof (cases rs)
    case Nil
    then show ?thesis using Cons
      by (simp add: buildAST_def spec_build_def row_clauses_def createClauseNode_def)
  next
    case (Cons r' rs')
    have "erase_ids (buildAST_loop gen rows 1 (createClauseNode (clause r))) =
      foldl spec_step (erase_ids (createClauseNode (clause r))) (row_clauses (drop 1 rows))"
      using \<open>rows = r # rs\<close> by (intro buildAST_loop_spec) simp
    then show ?thesis using \<open>rows = r # rs\<close> Cons
      by (simp add: buildAST_def spec_build_def row_clauses_def createClauseNode_def)
  qed
qed

lemma spec_uniform_run:
  "foldl spec_step (Bool opr cs) (map (Pair opr) ks) = Bool opr (cs @ map Leaf ks)"
  by (induction ks arbitrary: cs) (simp_all add: spec_step_def)

text \<open>
  C4 (the implicit builder is the left-to-right fold). Both builders of the code compute
  the fold of the design: \<open>buildFilterASTWithOperators\<close> on the enabled clauses (a
  \<open>must\<close> node for \<open>Bool AND\<close>, a \<open>should\<close> node with \<open>minimum_should_match 1\<close> for
  \<open>Bool OR\<close>), and \<open>buildAST\<close> of the AST service on its rows (up to the generated ids of
  the groups). In the fold a run of one connector stays flat in one node, and a new
  connector wraps the result so far as the first child of a new node. The clauses
  \<open>A, B(AND), C(OR), D(AND)\<close> give \<open>Bool(AND, [Bool(OR, [Bool(AND, [A, B]), C]), D])\<close> in
  both.
\<close>

theorem C4_implicit_builder_is_left_fold:
  "buildFilterASTWithOperators filters = map_option utils_node (spec_build (utils_clauses filters))
   \<and> map_option erase_ids (buildAST gen rows) = spec_build (row_clauses rows)
   \<and> foldl spec_step (Bool opr cs) (map (Pair opr) ks) = Bool opr (cs @ map Leaf ks)
   \<and> (bop \<noteq> opr \<longrightarrow> spec_step (Bool bop cs) (opr, k) = Bool opr [Bool bop cs, Leaf k])
   \<and> buildFilterASTWithOperators
         [A\<lparr>disabled := False\<rparr>, B\<lparr>disabled := False, logic := Some AND\<rparr>,
          C\<lparr>disabled := False, logic := Some OR\<rparr>, D\<lparr>disabled := False, logic := Some AND\<rparr>] =
       map_option utils_node
         (Some (Bool AND [Bool OR [Bool AND [Leaf (toKibanaFilter (A\<lparr>disabled := False\<rparr>)),
                                             Leaf (toKibanaFilter (B\<lparr>disabled := False, logic := Some AND\<rparr>))],
                                   Leaf (toKibanaFilter (C\<lparr>disabled := False, logic := Some OR\<rparr>))],
                          Leaf (toKibanaFilter (D\<lparr>disabled := False, logic := Some AND\<rparr>))]))
   \<and> map_option erase_ids
         (buildAST gen [ra, rb\<lparr>logicOperator := Some AND\<rparr>, rc\<lparr>logicOperator := Some OR\<rparr>,
                        rd\<lparr>logicOperator := Some AND\<rparr>]) =
       Some (Bool AND [Bool OR [Bool AND [Leaf (clause ra), Leaf (clause rb)], Leaf (clause rc)],
                       Leaf (clause rd)])"
proof -
  have ex1: "buildFilterASTWithOperators
         [A\<lparr>disabled := False\<rparr>, B\<lparr>disabled := False, logic := Some AND\<rparr>,
          C\<lparr>disabled := False, logic := Some OR\<rparr>, D\<lparr>disabled := False, logic := Some AND\<rparr>] =
       map_option utils_node
         (Some (Bool AND [Bool OR [Bool AND [Leaf (toKibanaFilter (A\<lparr>disabled := False\<rparr>)),
                                             Leaf (toKibanaFilter (B\<lparr>disabled := False, logic := Some AND\<rparr>))],
                                   Leaf (toKibanaFilter (C\<lparr>disabled := False, logic := Some OR\<rparr>))],
                          Leaf (toKibanaFilter (D\<lparr>disabled := False, logic := Some AND\<rparr>))]))"
    unfolding buildFilterASTWithOperators_spec
    by (simp add: utils_clauses_def spec_build_def spec_step_def logic_or_AND_def)
  have ex2: "map_option erase_ids
         (buildAST gen [ra, rb\<lparr>logicOperator := Some AND\<rparr>, rc\<lparr>logicOperator := Some OR\<rparr>,
                        rd\<lparr>logicOperator := Some AND\<rparr>]) =
       Some (Bool AND [Bool OR [Bool AND [Leaf (clause ra), Leaf (clause rb)], Leaf (clause rc)],
                       Leaf (clause rd)])"
    unfolding buildAST_spec
    by (simp add: row_clauses_def spec_build_def spec_step_def op_or_AND_def)
  have wrap: "bop \<noteq> opr \<longrightarrow> spec_step (Bool bop cs) (opr, k) = Bool opr [Bool bop cs, Leaf k]"
    by (simp add: spec_step_def)
  show ?thesis
    using buildFilterASTWithOperators_spec[of filters] buildAST_spec[of gen rows]
      spec_uniform_run[of opr cs ks] wrap ex1 ex2
    by blast
qed

theorem C4_implicit_builder_is_left_fold_witness:
  "AND \<noteq> OR
   \<and> spec_step (Bool AND [Leaf (1::nat), Leaf 2]) (OR, 3) = Bool OR [Bool AND [Leaf 1, Leaf 2], Leaf 3]
   \<and> buildFilterASTWithOperators
        [status_active, type_user AND, type_admin OR, category_premium AND] =
      Some (must_node
        [should_node
          [must_node [FilterNode (Some (toKibanaFilter status_active)),
                      FilterNode (Some (toKibanaFilter (type_user AND)))],
           FilterNode (Some (toKibanaFilter (type_admin OR)))],
         FilterNode (Some (toKibanaFilter (category_premium AND)))])"
proof -
  note c4 = C4_implicit_builder_is_left_fold
    [where filters = "[status_active, type_user AND, type_admin OR, category_premium AND]"
       and bop = AND and opr = OR and cs = "[Leaf (1::nat), Leaf 2]" and k = 3]
  have builder: "buildFilterASTWithOperators
        [status_active, type_user AND, type_admin OR, category_premium AND] =
      map_option utils_node (spec_build (utils_clauses
        [status_active, type_user AND, type_admin OR, category_premium AND]))"
    using c4 by (rule conjunct1)
  have wrap: "AND \<noteq> OR \<longrightarrow>
      spec_step (Bool AND [Leaf (1::nat), Leaf 2]) (OR, 3) = Bool OR [Bool AND [Leaf 1, Leaf 2], Leaf 3]"
    using c4 by blast
  show ?thesis
    using wrap unfolding builder
    by (simp add: utils_clauses_def spec_build_def spec_step_def logic_or_AND_def
        status_active_def type_user_def type_admin_def category_premium_def simple_def)
qed

subsection \<open>A change of connector\<close>

lemma keep_queries_Cons: "keep_queries (q # qs) = (if kept q then q # keep_queries qs else keep_queries qs)"
  by (simp add: keep_queries_def kept_def)

lemma keep_queries_Nil: "keep_queries [] = []"
  by (simp add: keep_queries_def)

lemma kept_must_doc: "kept (must_doc qs)"
  by (simp add: kept_def must_doc_def isEmptyQuery_def)

lemma kept_should_doc: "kept (should_doc qs)"
  by (simp add: kept_def should_doc_def isEmptyQuery_def)

lemma astToEsQuery_must_node:
  "astToEsQuery_node (must_node cs) =
     (let qs = keep_queries (map astToEsQuery_node cs)
      in if qs = [] then match_all else must_doc qs)"
  by (simp add: must_node_def must_doc_def Let_def)

lemma astToEsQuery_should_node:
  "astToEsQuery_node (should_node cs) =
     (let qs = keep_queries (map astToEsQuery_node cs)
      in if qs = [] then match_all else should_doc qs)"
  by (simp add: should_node_def should_doc_def msm_or_1_def Let_def)

lemma utils_connector_change_query:
  assumes "\<not> disabled A" "\<not> disabled B" "\<not> disabled C"
    and "logic_or_AND B = AND" "logic_or_AND C = OR"
    and "kept (leaf_query A)" "kept (leaf_query B)" "kept (leaf_query C)"
  shows "buildEsQueryFromFilters [A, B, C] =
           query_doc (should_doc [must_doc [leaf_query A, leaf_query B], leaf_query C])"
proof -
  have ast: "buildFilterASTWithOperators [A, B, C] =
      Some (should_node [must_node [FilterNode (Some (toKibanaFilter A)),
                                    FilterNode (Some (toKibanaFilter B))],
                         FilterNode (Some (toKibanaFilter C))])"
    unfolding buildFilterASTWithOperators_spec using assms(1-5)
    by (simp add: utils_clauses_def spec_build_def spec_step_def)
  have inner: "astToEsQuery_node (must_node [FilterNode (Some (toKibanaFilter A)),
                                    FilterNode (Some (toKibanaFilter B))]) =
      must_doc [leaf_query A, leaf_query B]"
    unfolding astToEsQuery_must_node using assms(6,7)
    by (simp add: keep_queries_Cons keep_queries_Nil leaf_query_def del: astToEsQuery_node.simps)
  have "astToEsQuery_node (should_node [must_node [FilterNode (Some (toKibanaFilter A)),
                                    FilterNode (Some (toKibanaFilter B))],
                         FilterNode (Some (toKibanaFilter C))]) =
      should_doc [must_doc [leaf_query A, leaf_query B], leaf_query C]"
    unfolding astToEsQuery_should_node using assms(8) inner kept_must_doc
    by (simp add: keep_queries_Cons keep_queries_Nil leaf_query_def del: astToEsQuery_node.simps)
  then show ?thesis
    by (simp add: buildEsQueryFromFilters_def ast astToEsQuery_def del: astToEsQuery_node.simps)
qed

lemma utils_connector_change_preview:
  assumes "\<not> disabled A" "\<not> disabled B" "\<not> disabled C"
    and "logic_or_AND B = AND" "logic_or_AND C = OR"
  shows "buildPreviewString [A, B, C] =
           ''('' @ formatFilterText A @ '' AND '' @ formatFilterText B @ '') OR '' @ formatFilterText C"
  using assms
  by (simp add: buildPreviewString_def buildPreviewWithGrouping_def nth_opt_def op_or_AND_def
      preview_loop.simps[of _ _ 1] preview_loop.simps[of _ _ 2] preview_loop.simps[of _ _ 3]
      op_text_def op_name_def numeral_2_eq_2 numeral_3_eq_3 Let_def)

lemma row_query_Some_fields:
  "row_query f = Some q \<Longrightarrow> field f \<noteq> [] \<and> operator f \<noteq> []"
  by (auto simp: row_query_def split: if_splits)

lemma row_expression_Some:
  assumes "field f \<noteq> []" "operator f \<noteq> []"
  shows "\<exists>e. row_expression i f = Some e \<and>
             expr_logic e = (if i > 0 then Some (logic_or_AND f) else None)"
  using assms by (simp add: row_expression_def Let_def)

lemma inline_connector_change_query:
  assumes "row_query A = Some a" "row_query B = Some b" "row_query C = Some c"
    and "logic_or_AND B = AND" "logic_or_AND C = OR"
  shows "generateQueryDSL [A, B, C] = query_doc (must_doc [a, should_doc [b, c]])"
  using assms
  by (simp add: generateQueryDSL_def row_queries_def List.map_filter_def close_group_def
      must_doc_def)

lemma inline_connector_change_preview:
  assumes "field A \<noteq> []" "operator A \<noteq> []" "field B \<noteq> []" "operator B \<noteq> []"
    "field C \<noteq> []" "operator C \<noteq> []"
    and "logic_or_AND B = AND" "logic_or_AND C = OR"
  shows "updatePreview [A, B, C] =
           row_text 0 A @ ''  AND ( '' @ row_text 1 B @ ''  OR '' @ row_text 2 C @ '' )''"
proof -
  obtain ea where ea: "row_expression 0 A = Some ea"
    using row_expression_Some[OF assms(1,2), of 0] by blast
  obtain eb where eb: "row_expression 1 B = Some eb" "expr_logic eb = Some AND"
    using row_expression_Some[OF assms(3,4), of 1] assms(7) by auto
  obtain ec where ec: "row_expression 2 C = Some ec" "expr_logic ec = Some OR"
    using row_expression_Some[OF assms(5,6), of 2] assms(8) by auto
  show ?thesis
    using ea eb ec
    by (simp add: updatePreview_def List.map_filter_def group_parts_def row_text_def
        numeral_2_eq_2)
qed

text \<open>
  C2 (\<open>[A, B(AND), C(OR)]\<close> compiles to \<open>should[must[A, B], C]\<close> and previews as
  \<open>(A AND B) OR C\<close>). The utilities do so (\<open>utils_connector_change_query\<close>,
  \<open>utils_connector_change_preview\<close>). The inline \<open>generateQueryDSL\<close> and \<open>updatePreview\<close> of
  \<open>kibana-filter-bar.component.ts\<close> do not: they collect runs of \<open>OR\<close> into groups and
  join the groups by \<open>AND\<close>, so the three rows give \<open>must[A, should[B, C]]\<close> and the text
  \<open>A  AND ( B  OR C )\<close>.
\<close>

theorem C2_inline_component_groups_or_runs:
  assumes "row_query A = Some a" and "row_query B = Some b" and "row_query C = Some c"
    and "logic_or_AND B = AND" and "logic_or_AND C = OR"
  shows "generateQueryDSL [A, B, C] = query_doc (must_doc [a, should_doc [b, c]])
         \<and> generateQueryDSL [A, B, C] \<noteq> query_doc (should_doc [must_doc [a, b], c])
         \<and> updatePreview [A, B, C] =
             row_text 0 A @ ''  AND ( '' @ row_text 1 B @ ''  OR '' @ row_text 2 C @ '' )''"
proof -
  have q: "generateQueryDSL [A, B, C] = query_doc (must_doc [a, should_doc [b, c]])"
    using assms by (rule inline_connector_change_query)
  have ne: "query_doc (must_doc [a, should_doc [b, c]]) \<noteq> query_doc (should_doc [must_doc [a, b], c])"
    by (simp add: query_doc_def must_doc_def should_doc_def)
  have p: "updatePreview [A, B, C] =
      row_text 0 A @ ''  AND ( '' @ row_text 1 B @ ''  OR '' @ row_text 2 C @ '' )''"
    using row_query_Some_fields[OF assms(1)] row_query_Some_fields[OF assms(2)]
      row_query_Some_fields[OF assms(3)] assms(4,5)
    by (intro inline_connector_change_preview) simp_all
  show ?thesis using q ne p by simp
qed

theorem C2_inline_component_groups_or_runs_witness:
  "generateQueryDSL [status_active, type_user AND, type_admin OR] =
     Obj [(''query'', Obj [(''bool'', Obj [(''must'', Arr [
       Obj [(''match'', Obj [(''status'', Str ''active'')])],
       Obj [(''bool'', Obj [(''should'', Arr [
              Obj [(''match'', Obj [(''type'', Str ''user'')])],
              Obj [(''match'', Obj [(''type'', Str ''admin'')])]]),
            (''minimum_should_match'', Num 1)])]])])])]
   \<and> updatePreview [status_active, type_user AND, type_admin OR] =
     ''status: active  AND ( type: user  OR type: admin )''"
proof -
  have a: "row_query status_active = Some (Obj [(''match'', Obj [(''status'', Str ''active'')])])"
    by (simp add: status_active_def simple_def row_query_def normalizeOperator_def
        isKeywordField_def endsWith_def isDateField_def toLowerCase_def lower_char_def
        isNumeric_def numeric_re_def trim_def is_space_def is_digit_def)
  have b: "row_query (type_user AND) = Some (Obj [(''match'', Obj [(''type'', Str ''user'')])])"
    by (simp add: type_user_def simple_def row_query_def normalizeOperator_def
        isKeywordField_def endsWith_def isDateField_def toLowerCase_def lower_char_def
        isNumeric_def numeric_re_def trim_def is_space_def is_digit_def)
  have c: "row_query (type_admin OR) = Some (Obj [(''match'', Obj [(''type'', Str ''admin'')])])"
    by (simp add: type_admin_def simple_def row_query_def normalizeOperator_def
        isKeywordField_def endsWith_def isDateField_def toLowerCase_def lower_char_def
        isNumeric_def numeric_re_def trim_def is_space_def is_digit_def)
  have l: "logic_or_AND (type_user AND) = AND" "logic_or_AND (type_admin OR) = OR"
    by (simp_all add: type_user_def type_admin_def simple_def logic_or_AND_def)
  have t: "row_text 0 status_active = ''status: active''"
    "row_text 1 (type_user AND) = ''type: user''"
    "row_text 2 (type_admin OR) = ''type: admin''"
    by (simp_all add: row_text_def row_expression_def normalizeOperator_def expr_part_def
        status_active_def type_user_def type_admin_def simple_def)
  note th = C2_inline_component_groups_or_runs[OF a b c l]
  have q: "generateQueryDSL [status_active, type_user AND, type_admin OR] =
      query_doc (must_doc [Obj [(''match'', Obj [(''status'', Str ''active'')])],
        should_doc [Obj [(''match'', Obj [(''type'', Str ''user'')])],
                    Obj [(''match'', Obj [(''type'', Str ''admin'')])]]])"
    using th by (rule conjunct1)
  have p: "updatePreview [status_active, type_user AND, type_admin OR] =
      row_text 0 status_active @ ''  AND ( '' @ row_text 1 (type_user AND) @ ''  OR '' @
      row_text 2 (type_admin OR) @ '' )''"
    using th by blast
  show ?thesis
    unfolding q p t by (simp add: query_doc_def must_doc_def should_doc_def)
qed

subsection \<open>Uniform connectors\<close>

lemma enumerate_map_pos:
  assumes "\<And>i x. i > 0 \<Longrightarrow> h i x = h' x"
  shows "map (\<lambda>(i, x). h i x) (List.enumerate (Suc k) xs) = map h' xs"
  using assms by (induction xs arbitrary: k) simp_all

lemma join_head_append: "join s ((p @ a) # ys) = p @ join s (a # ys)"
  by (cases ys) simp_all

lemma join_prefixed:
  "join s (x # map (\<lambda>y. p @ y) ys) = join (s @ p) (x # ys)"
  by (induction ys arbitrary: x) (simp_all add: join_head_append)

lemma map_const_on:
  "\<forall>x\<in>set xs. f x = c \<Longrightarrow> map f xs = replicate (length xs) c"
  by (induction xs) simp_all

lemma utils_uniform_preview:
  assumes en: "\<forall>f\<in>set (f0 # f1 # rest). \<not> disabled f"
    and un: "\<forall>f\<in>set (f1 # rest). logic_or_AND f = X"
  shows "buildPreviewString (f0 # f1 # rest) =
           join ('' '' @ op_name X @ '' '') (map formatFilterText (f0 # f1 # rest))"
proof -
  let ?fs = "f0 # f1 # rest"
  let ?g = "\<lambda>index f. (formatFilterText f, if index > 0 then Some (logic_or_AND f) else None)"
  have enabled: "filter (\<lambda>f. \<not> disabled f) ?fs = ?fs"
    using en by (intro filter_True) auto
  have tl_exprs: "map (\<lambda>(index, f). ?g index f) (List.enumerate (Suc 0) (f1 # rest)) =
      map (\<lambda>f. (formatFilterText f, Some (logic_or_AND f))) (f1 # rest)"
    by (rule enumerate_map_pos) simp
  have tl_exprs': "map (\<lambda>f. (formatFilterText f, Some (logic_or_AND f))) (f1 # rest) =
      map (\<lambda>f. (formatFilterText f, Some X)) (f1 # rest)"
    using un by (intro map_cong) auto
  define exprs where "exprs = (formatFilterText f0, None :: LogicalOperator option) #
      map (\<lambda>f. (formatFilterText f, Some X)) (f1 # rest)"
  have exprs: "map (\<lambda>(index, f). ?g index f) (List.enumerate 0 ?fs) = exprs"
    using tl_exprs tl_exprs' by (simp add: exprs_def)
  have len: "length exprs = Suc (Suc (length rest))" by (simp add: exprs_def)
  have ops: "map (\<lambda>e. op_or_AND (snd e)) (drop 1 exprs) = replicate (Suc (length rest)) X"
    by (simp add: exprs_def op_or_AND_def comp_def map_replicate_const)
  have allSame: "list_all (\<lambda>opr. Some opr = nth_opt (replicate (Suc (length rest)) X) 0)
      (replicate (Suc (length rest)) X)"
    by (simp add: nth_opt_def list_all_iff)
  have parts: "map (\<lambda>(idx, expr). if idx = 0 then fst expr else op_text (snd expr) @ '' '' @ fst expr)
      (List.enumerate 0 exprs) =
      formatFilterText f0 # map (\<lambda>y. (op_name X @ '' '') @ y) (map formatFilterText (f1 # rest))"
  proof -
    have "map (\<lambda>(idx, expr). if idx = 0 then fst expr else op_text (snd expr) @ '' '' @ fst expr)
        (List.enumerate (Suc 0) (map (\<lambda>f. (formatFilterText f, Some X)) (f1 # rest))) =
        map (\<lambda>expr. op_text (snd expr) @ '' '' @ fst expr)
          (map (\<lambda>f. (formatFilterText f, Some X)) (f1 # rest))"
      by (rule enumerate_map_pos) simp
    then show ?thesis by (simp add: exprs_def op_text_def comp_def)
  qed
  have "buildPreviewWithGrouping exprs =
      join '' '' (formatFilterText f0 # map (\<lambda>y. (op_name X @ '' '') @ y) (map formatFilterText (f1 # rest)))"
    unfolding buildPreviewWithGrouping_def Let_def ops
    using len allSame parts by simp
  also have "\<dots> = join ('' '' @ op_name X @ '' '') (formatFilterText f0 # map formatFilterText (f1 # rest))"
    by (rule join_prefixed)
  finally show ?thesis
    unfolding buildPreviewString_def Let_def enabled exprs by simp
qed


lemma utils_uniform_ast:
  assumes en: "\<forall>f\<in>set (f0 # f1 # rest). \<not> disabled f"
    and un: "\<forall>f\<in>set (f1 # rest). logic_or_AND f = X"
  shows "buildFilterASTWithOperators (f0 # f1 # rest) =
           Some (utils_node (Bool X (map (\<lambda>f. Leaf (toKibanaFilter f)) (f0 # f1 # rest))))"
proof -
  have enabled: "filter (\<lambda>f. \<not> disabled f) (f0 # f1 # rest) = f0 # f1 # rest"
    using en by (intro filter_True) auto
  have "map (\<lambda>f. (logic_or_AND f, toKibanaFilter f)) rest = map (\<lambda>f. (X, toKibanaFilter f)) rest"
    using un by (intro map_cong) auto
  also have "\<dots> = map (Pair X) (map toKibanaFilter rest)"
    by (simp add: comp_def)
  finally have rest: "map (\<lambda>f. (logic_or_AND f, toKibanaFilter f)) rest =
      map (Pair X) (map toKibanaFilter rest)" .
  have f1: "logic_or_AND f1 = X" using un by simp
  have "utils_clauses (f0 # f1 # rest) =
      (logic_or_AND f0, toKibanaFilter f0) # (X, toKibanaFilter f1) #
      map (Pair X) (map toKibanaFilter rest)"
    unfolding utils_clauses_def enabled using rest f1 by simp
  then have "spec_build (utils_clauses (f0 # f1 # rest)) =
      Some (foldl spec_step (Bool X [Leaf (toKibanaFilter f0), Leaf (toKibanaFilter f1)])
              (map (Pair X) (map toKibanaFilter rest)))"
    by (simp add: spec_build_def spec_step_def)
  then show ?thesis
    unfolding buildFilterASTWithOperators_spec spec_uniform_run by (simp add: comp_def)
qed

lemma map_leaf_nodes:
  "map astToEsQuery_node (map (\<lambda>f. FilterNode (Some (toKibanaFilter f))) fs) = map leaf_query fs"
  unfolding leaf_query_def map_map comp_def ..

lemma utils_uniform_query:
  assumes en: "\<forall>f\<in>set (f0 # f1 # rest). \<not> disabled f"
    and un: "\<forall>f\<in>set (f1 # rest). logic_or_AND f = X"
    and ne: "keep_queries (map leaf_query (f0 # f1 # rest)) \<noteq> []"
  shows "buildEsQueryFromFilters (f0 # f1 # rest) =
           query_doc ((case X of AND \<Rightarrow> must_doc | OR \<Rightarrow> should_doc)
                        (keep_queries (map leaf_query (f0 # f1 # rest))))"
proof -
  let ?fs = "f0 # f1 # rest"
  let ?leaves = "map (\<lambda>f. FilterNode (Some (toKibanaFilter f))) ?fs"
  have nodes: "utils_node (Bool X (map (\<lambda>f. Leaf (toKibanaFilter f)) ?fs)) =
      (case X of AND \<Rightarrow> must_node ?leaves | OR \<Rightarrow> should_node ?leaves)"
    by (cases X) (simp_all add: comp_def)
  have "astToEsQuery_node (case X of AND \<Rightarrow> must_node ?leaves | OR \<Rightarrow> should_node ?leaves) =
      (case X of AND \<Rightarrow> must_doc | OR \<Rightarrow> should_doc) (keep_queries (map leaf_query ?fs))"
  proof (cases X)
    case AND
    have "astToEsQuery_node (must_node ?leaves) = must_doc (keep_queries (map leaf_query ?fs))"
      unfolding astToEsQuery_must_node map_leaf_nodes Let_def using ne by simp
    then show ?thesis using AND by simp
  next
    case OR
    have "astToEsQuery_node (should_node ?leaves) = should_doc (keep_queries (map leaf_query ?fs))"
      unfolding astToEsQuery_should_node map_leaf_nodes Let_def using ne by simp
    then show ?thesis using OR by simp
  qed
  then show ?thesis
    unfolding buildEsQueryFromFilters_def utils_uniform_ast[OF en un] astToEsQuery_def nodes
    by simp
qed

lemma inline_two_rows_preview:
  assumes "field A \<noteq> []" "operator A \<noteq> []" "field B \<noteq> []" "operator B \<noteq> []"
  shows "updatePreview [A, B] =
           (case logic_or_AND B of
              OR \<Rightarrow> ''( '' @ row_text 0 A @ ''  OR '' @ row_text 1 B @ '' )''
            | AND \<Rightarrow> row_text 0 A @ ''  AND '' @ row_text 1 B)"
proof -
  obtain ea where ea: "row_expression 0 A = Some ea"
    using row_expression_Some[OF assms(1,2), of 0] by blast
  obtain eb where eb: "row_expression 1 B = Some eb" "expr_logic eb = Some (logic_or_AND B)"
    using row_expression_Some[OF assms(3,4), of 1] by auto
  show ?thesis
    using ea eb
    by (cases "logic_or_AND B")
       (simp_all add: updatePreview_def List.map_filter_def group_parts_def row_text_def)
qed

lemma inline_two_rows_query:
  assumes "row_query A = Some a" "row_query B = Some b"
  shows "generateQueryDSL [A, B] =
           query_doc ((case logic_or_AND B of AND \<Rightarrow> must_doc | OR \<Rightarrow> should_doc) [a, b])"
  using assms
  by (cases "logic_or_AND B")
     (simp_all add: generateQueryDSL_def row_queries_def List.map_filter_def close_group_def
        must_doc_def should_doc_def js_or_def)

text \<open>
  C8 (uniform connectors: the preview is \<open>c1 X c2 X ... X cn\<close> without parentheses, the query
  \<open>must[...]\<close> or \<open>should[...]\<close> with \<open>minimum_should_match 1\<close>). The utilities do so
  (\<open>utils_uniform_preview\<close>, \<open>utils_uniform_query\<close>), and the inline \<open>generateQueryDSL\<close> of
  \<open>kibana-filter-bar.component.ts\<close> gives the same query shape. Its inline
  \<open>updatePreview\<close> does not give that text: rows joined by \<open>OR\<close> are put between
  parentheses, and every connector is preceded by two spaces.
\<close>

theorem C8_inline_preview_parenthesises_or:
  assumes "row_query A = Some a" and "row_query B = Some b"
  shows "updatePreview [A, B] =
           (case logic_or_AND B of
              OR \<Rightarrow> ''( '' @ row_text 0 A @ ''  OR '' @ row_text 1 B @ '' )''
            | AND \<Rightarrow> row_text 0 A @ ''  AND '' @ row_text 1 B)
         \<and> updatePreview [A, B] \<noteq>
             row_text 0 A @ '' '' @ op_name (logic_or_AND B) @ '' '' @ row_text 1 B
         \<and> generateQueryDSL [A, B] =
             query_doc ((case logic_or_AND B of AND \<Rightarrow> must_doc | OR \<Rightarrow> should_doc) [a, b])"
proof -
  have p: "updatePreview [A, B] =
           (case logic_or_AND B of
              OR \<Rightarrow> ''( '' @ row_text 0 A @ ''  OR '' @ row_text 1 B @ '' )''
            | AND \<Rightarrow> row_text 0 A @ ''  AND '' @ row_text 1 B)"
    using row_query_Some_fields[OF assms(1)] row_query_Some_fields[OF assms(2)]
    by (intro inline_two_rows_preview) simp_all
  have ne: "(case logic_or_AND B of
              OR \<Rightarrow> ''( '' @ row_text 0 A @ ''  OR '' @ row_text 1 B @ '' )''
            | AND \<Rightarrow> row_text 0 A @ ''  AND '' @ row_text 1 B) \<noteq>
        row_text 0 A @ '' '' @ op_name (logic_or_AND B) @ '' '' @ row_text 1 B"
  proof (cases "logic_or_AND B")
    case AND
    then show ?thesis by (simp add: op_name_def)
  next
    case OR
    have "length (''( '' @ row_text 0 A @ ''  OR '' @ row_text 1 B @ '' )'') \<noteq>
          length (row_text 0 A @ '' OR '' @ row_text 1 B)"
      by simp
    then show ?thesis using OR by (auto simp: op_name_def)
  qed
  show ?thesis
    using p ne inline_two_rows_query[OF assms] by simp
qed

theorem C8_inline_preview_parenthesises_or_witness:
  "updatePreview [status_active, type_user OR] = ''( status: active  OR type: user )''
   \<and> generateQueryDSL [status_active, type_user OR] =
       Obj [(''query'', Obj [(''bool'', Obj [(''should'', Arr [
              Obj [(''match'', Obj [(''status'', Str ''active'')])],
              Obj [(''match'', Obj [(''type'', Str ''user'')])]]),
            (''minimum_should_match'', Num 1)])])]"
proof -
  have a: "row_query status_active = Some (Obj [(''match'', Obj [(''status'', Str ''active'')])])"
    by (simp add: status_active_def simple_def row_query_def normalizeOperator_def
        isKeywordField_def endsWith_def isDateField_def toLowerCase_def lower_char_def
        isNumeric_def numeric_re_def trim_def is_space_def is_digit_def)
  have b: "row_query (type_user OR) = Some (Obj [(''match'', Obj [(''type'', Str ''user'')])])"
    by (simp add: type_user_def simple_def row_query_def normalizeOperator_def
        isKeywordField_def endsWith_def isDateField_def toLowerCase_def lower_char_def
        isNumeric_def numeric_re_def trim_def is_space_def is_digit_def)
  have l: "logic_or_AND (type_user OR) = OR"
    by (simp add: type_user_def simple_def logic_or_AND_def)
  have t: "row_text 0 status_active = ''status: active''"
    "row_text 1 (type_user OR) = ''type: user''"
    by (simp_all add: row_text_def row_expression_def normalizeOperator_def expr_part_def
        status_active_def type_user_def simple_def)
  note th = C8_inline_preview_parenthesises_or[OF a b]
  have p: "updatePreview [status_active, type_user OR] =
      ''( '' @ row_text 0 status_active @ ''  OR '' @ row_text 1 (type_user OR) @ '' )''"
    using th l by simp
  have q: "generateQueryDSL [status_active, type_user OR] =
      query_doc (should_doc [Obj [(''match'', Obj [(''status'', Str ''active'')])],
                             Obj [(''match'', Obj [(''type'', Str ''user'')])]])"
    using th l by simp
  show ?thesis
    unfolding p q t by (simp add: query_doc_def should_doc_def)
qed

subsection \<open>Internal nodes\<close>

lemma isEmptyQuery_match_all: "isEmptyQuery match_all"
  by (simp add: isEmptyQuery_def match_all_def)

lemma match_all_not_kept: "match_all \<notin> set (keep_queries qs)"
  by (simp add: keep_queries_def isEmptyQuery_match_all)

lemma keep_queries_drops_match_all:
  "keep_queries (qs1 @ match_all # qs2) = keep_queries (qs1 @ qs2)"
  by (simp add: keep_queries_def isEmptyQuery_match_all)

lemma astToEsQuery_utils_bool:
  "astToEsQuery_node (utils_node (Bool opr cs)) =
     (let qs = keep_queries (map astToEsQuery_node (map utils_node cs))
      in if qs = [] then match_all
         else (case opr of AND \<Rightarrow> must_doc qs | OR \<Rightarrow> should_doc qs))"
proof (cases opr)
  case AND
  show ?thesis unfolding AND utils_node.simps astToEsQuery_must_node by (simp add: Let_def)
next
  case OR
  show ?thesis unfolding OR utils_node.simps astToEsQuery_should_node by (simp add: Let_def)
qed

lemma toQueryDSLRecursive_group:
  "toQueryDSLRecursive (GroupNode i opr children) =
     (let qs = keep_queries (map toQueryDSLRecursive children)
      in if qs = [] then match_all
         else if length qs = 1 then hd qs
         else (case opr of AND \<Rightarrow> must_doc qs | OR \<Rightarrow> should_doc qs))"
  by (cases opr) (auto simp: Let_def hd_conv_nth)

lemma range_unset_leaf: "leaf_query (bytes_range Undefined Undefined) = match_all"
  by (simp add: leaf_query_def bytes_range_def simple_def toKibanaFilter_def
      buildSingleFilterQuery_def isNegatedOperator_def js_or_def Let_def)

lemma status_active_leaf:
  "leaf_query status_active = Obj [(''match'', Obj [(''status'', Str ''active'')])]"
  by (simp add: leaf_query_def status_active_def simple_def toKibanaFilter_def
      buildSingleFilterQuery_def isNegatedOperator_def js_or_def Let_def endsWith_def
      isNumeric_def numeric_re_def trim_def is_space_def is_digit_def)

lemma keep_active_only:
  "keep_queries [Obj [(''match'', Obj [(''status'', Str ''active'')])], match_all] =
     [Obj [(''match'', Obj [(''status'', Str ''active'')])]]"
  by (simp add: keep_queries_def isEmptyQuery_def match_all_def)

text \<open>
  C3, as stated, fails on \<open>astToEsQuery\<close>: the \<open>must\<close> node over the clause
  \<open>status is active\<close> and a range clause without bounds keeps one child after the
  match-all child is dropped, and the result is \<open>{bool: {must: [child]}}\<close>, not the child's
  document.
\<close>

theorem C3_single_child_still_wrapped:
  "keep_queries (map astToEsQuery_node
       [FilterNode (Some (toKibanaFilter status_active)),
        FilterNode (Some (toKibanaFilter (bytes_range Undefined Undefined)))]) =
     [Obj [(''match'', Obj [(''status'', Str ''active'')])]]
   \<and> astToEsQuery_node (must_node
       [FilterNode (Some (toKibanaFilter status_active)),
        FilterNode (Some (toKibanaFilter (bytes_range Undefined Undefined)))]) =
     Obj [(''bool'', Obj [(''must'', Arr [Obj [(''match'', Obj [(''status'', Str ''active'')])]])])]
   \<and> astToEsQuery_node (must_node
       [FilterNode (Some (toKibanaFilter status_active)),
        FilterNode (Some (toKibanaFilter (bytes_range Undefined Undefined)))]) \<noteq>
     Obj [(''match'', Obj [(''status'', Str ''active'')])]"
proof -
  have m: "map astToEsQuery_node
       [FilterNode (Some (toKibanaFilter status_active)),
        FilterNode (Some (toKibanaFilter (bytes_range Undefined Undefined)))] =
       [Obj [(''match'', Obj [(''status'', Str ''active'')])], match_all]"
    using range_unset_leaf status_active_leaf
    by (simp add: leaf_query_def del: astToEsQuery_node.simps)
  show ?thesis
    unfolding astToEsQuery_must_node m keep_active_only by (simp add: must_doc_def)
qed

text \<open>
  C3 as amended. \<open>toQueryDSLRecursive\<close> of the AST service does what the claim says for
  every group node: it compiles the children and drops those that are match-all; none
  left gives match-all, one left gives that document unwrapped, more give \<open>must\<close> for
  \<open>AND\<close> and \<open>should\<close> with \<open>minimum_should_match 1\<close> for \<open>OR\<close>. \<open>astToEsQuery\<close> of the
  utilities compiles and drops in the same way and gives match-all when none is left,
  but otherwise it always emits the \<open>bool\<close> document, also around a single child.
\<close>

theorem C3_internal_node_compilation:
  "toQueryDSLRecursive (GroupNode i opr children) =
     (let qs = keep_queries (map toQueryDSLRecursive children)
      in if qs = [] then match_all
         else if length qs = 1 then hd qs
         else (case opr of AND \<Rightarrow> must_doc qs | OR \<Rightarrow> should_doc qs))
   \<and> astToEsQuery_node (utils_node (Bool opr cs)) =
     (let qs = keep_queries (map astToEsQuery_node (map utils_node cs))
      in if qs = [] then match_all
         else (case opr of AND \<Rightarrow> must_doc qs | OR \<Rightarrow> should_doc qs))
   \<and> keep_queries (qs1 @ match_all # qs2) = keep_queries (qs1 @ qs2)
   \<and> match_all \<notin> set (keep_queries qs0)"
  using toQueryDSLRecursive_group[of i opr children] astToEsQuery_utils_bool[of opr cs]
    keep_queries_drops_match_all[of qs1 qs2] match_all_not_kept[of qs0]
  by blast

theorem C3_internal_node_compilation_witness:
  "toQueryDSLRecursive (GroupNode ''g'' AND
       [ClauseNode ''c1'' clause_status_active, ClauseNode ''c2'' clause_bytes_unset]) =
     Obj [(''match'', Obj [(''status'', Str ''active'')])]
   \<and> astToEsQuery_node (utils_node (Bool AND
       [Leaf (toKibanaFilter status_active),
        Leaf (toKibanaFilter (bytes_range Undefined Undefined))])) =
     Obj [(''bool'', Obj [(''must'', Arr [Obj [(''match'', Obj [(''status'', Str ''active'')])]])])]"
proof -
  note th = C3_internal_node_compilation
    [where i = "''g''" and opr = AND
       and children = "[ClauseNode ''c1'' clause_status_active, ClauseNode ''c2'' clause_bytes_unset]"
       and cs = "[Leaf (toKibanaFilter status_active),
                  Leaf (toKibanaFilter (bytes_range Undefined Undefined))]"]
  have s: "map toQueryDSLRecursive
      [ClauseNode ''c1'' clause_status_active, ClauseNode ''c2'' clause_bytes_unset] =
      [Obj [(''match'', Obj [(''status'', Str ''active'')])], match_all]"
    by (simp add: clauseToQueryDSL_def clause_status_active_def clause_bytes_unset_def
        endsWith_def isNumeric_def numeric_re_def trim_def is_space_def is_digit_def)
  have u: "map astToEsQuery_node (map utils_node
      [Leaf (toKibanaFilter status_active),
       Leaf (toKibanaFilter (bytes_range Undefined Undefined))]) =
      [Obj [(''match'', Obj [(''status'', Str ''active'')])], match_all]"
    using range_unset_leaf status_active_leaf
    by (simp add: leaf_query_def del: astToEsQuery_node.simps)
  have a: "toQueryDSLRecursive (GroupNode ''g'' AND
       [ClauseNode ''c1'' clause_status_active, ClauseNode ''c2'' clause_bytes_unset]) =
     Obj [(''match'', Obj [(''status'', Str ''active'')])]"
    using th[THEN conjunct1] unfolding s keep_active_only by simp
  have b: "astToEsQuery_node (utils_node (Bool AND
       [Leaf (toKibanaFilter status_active),
        Leaf (toKibanaFilter (bytes_range Undefined Undefined))])) =
     Obj [(''bool'', Obj [(''must'', Arr [Obj [(''match'', Obj [(''status'', Str ''active'')])]])])]"
    using th[THEN conjunct2, THEN conjunct1] unfolding u keep_active_only
    by (simp add: must_doc_def)
  show ?thesis using a b by simp
qed

subsection \<open>Range clauses\<close>

lemma obj_set_fresh: "k \<noteq> k' \<Longrightarrow> obj_set [(k', v')] k v = [(k', v'), (k, v)]"
  by simp

lemma range_bounds_utils:
  assumes "operator f = ''range''"
    and "str_or (minOperator f) ''gt'' \<noteq> str_or (maxOperator f) ''lt''"
  shows "buildSingleFilterQuery f =
           (if truthy_bounds f = [] then Null
            else Obj [(''range'', Obj [(field f, Obj (truthy_bounds f))])])"
  using assms by (simp add: buildSingleFilterQuery_def truthy_bounds_def Let_def)

lemma normalize_range: "normalizeOperator ''range'' = ''range''"
  by (simp add: normalizeOperator_def)

lemma range_bounds_inline:
  assumes "operator f = ''range''" and "field f \<noteq> []"
    and "str_or (minOperator f) ''gt'' \<noteq> str_or (maxOperator f) ''lt''"
  shows "row_query f =
           (if truthy_bounds f = [] then None
            else Some (Obj [(''range'', Obj [(field f, Obj (truthy_bounds f))])]))"
  using assms
  by (simp add: row_query_def truthy_bounds_def Let_def normalize_range isKeywordField_def)

lemma falsy_min_as_absent:
  assumes "operator f = ''range''" and "\<not> truthy v"
  shows "buildSingleFilterQuery (f\<lparr>minValue := v\<rparr>) = buildSingleFilterQuery (f\<lparr>minValue := Undefined\<rparr>)"
    and "row_query (f\<lparr>minValue := v\<rparr>) = row_query (f\<lparr>minValue := Undefined\<rparr>)"
  using assms
  by (simp_all add: buildSingleFilterQuery_def row_query_def Let_def normalize_range)

lemma falsy_max_as_absent:
  assumes "operator f = ''range''" and "\<not> truthy v"
  shows "buildSingleFilterQuery (f\<lparr>maxValue := v\<rparr>) = buildSingleFilterQuery (f\<lparr>maxValue := Undefined\<rparr>)"
    and "row_query (f\<lparr>maxValue := v\<rparr>) = row_query (f\<lparr>maxValue := Undefined\<rparr>)"
  using assms
  by (simp_all add: buildSingleFilterQuery_def row_query_def Let_def normalize_range)

lemma range_unbounded_excluded:
  assumes "operator f = ''range''" and "\<not> truthy (minValue f)" and "\<not> truthy (maxValue f)"
  shows "buildSingleFilterQuery f = Null"
    and "leaf_query f = match_all"
    and "keep_queries (qs1 @ leaf_query f # qs2) = keep_queries (qs1 @ qs2)"
    and "row_query f = None"
    and "row_queries (rows1 @ f # rows2) = row_queries (rows1 @ rows2)"
proof -
  show n: "buildSingleFilterQuery f = Null"
    using assms by (simp add: buildSingleFilterQuery_def Let_def)
  show l: "leaf_query f = match_all"
    using assms(1) by (simp add: leaf_query_def toKibanaFilter_def n isNegatedOperator_def js_or_def)
  show "keep_queries (qs1 @ leaf_query f # qs2) = keep_queries (qs1 @ qs2)"
    unfolding l by (rule keep_queries_drops_match_all)
  show r: "row_query f = None"
    using assms by (simp add: row_query_def Let_def normalize_range)
  show "row_queries (rows1 @ f # rows2) = row_queries (rows1 @ rows2)"
    using r by (simp add: row_queries_def List.map_filter_def)
qed

text \<open>
  C10 (a range bound is compiled iff its value is truthy). For every clause with operator
  \<open>range\<close>, in \<open>buildSingleFilterQuery\<close> of the utilities and in the inline
  \<open>generateQueryDSL\<close> of the component alike: the range object holds exactly the sides
  whose value is truthy, under the supplied operator or \<open>gt\<close>/\<open>lt\<close> by default (the two
  operators being different keys); a bound that is \<open>0\<close>, the empty string or any other
  falsy value compiles exactly as an absent one; and a clause with two falsy bounds
  compiles to \<open>null\<close> (no query is pushed inline), so that it is dropped from the children
  of its node and from the list of queries.
\<close>

theorem C10_range_bounds_by_truthiness:
  assumes "operator f = ''range''"
  shows "(str_or (minOperator f) ''gt'' \<noteq> str_or (maxOperator f) ''lt'' \<longrightarrow>
            buildSingleFilterQuery f =
              (if truthy_bounds f = [] then Null
               else Obj [(''range'', Obj [(field f, Obj (truthy_bounds f))])])
            \<and> (field f \<noteq> [] \<longrightarrow>
                 row_query f =
                   (if truthy_bounds f = [] then None
                    else Some (Obj [(''range'', Obj [(field f, Obj (truthy_bounds f))])]))))
         \<and> (\<not> truthy v \<longrightarrow>
              buildSingleFilterQuery (f\<lparr>minValue := v\<rparr>) =
                buildSingleFilterQuery (f\<lparr>minValue := Undefined\<rparr>)
              \<and> buildSingleFilterQuery (f\<lparr>maxValue := v\<rparr>) =
                buildSingleFilterQuery (f\<lparr>maxValue := Undefined\<rparr>)
              \<and> row_query (f\<lparr>minValue := v\<rparr>) = row_query (f\<lparr>minValue := Undefined\<rparr>)
              \<and> row_query (f\<lparr>maxValue := v\<rparr>) = row_query (f\<lparr>maxValue := Undefined\<rparr>))
         \<and> buildSingleFilterQuery (f\<lparr>minValue := Num 0\<rparr>) =
               buildSingleFilterQuery (f\<lparr>minValue := Undefined\<rparr>)
         \<and> buildSingleFilterQuery (f\<lparr>minValue := Str []\<rparr>) =
               buildSingleFilterQuery (f\<lparr>minValue := Undefined\<rparr>)
         \<and> buildSingleFilterQuery (f\<lparr>maxValue := Num 0\<rparr>) =
               buildSingleFilterQuery (f\<lparr>maxValue := Undefined\<rparr>)
         \<and> buildSingleFilterQuery (f\<lparr>maxValue := Str []\<rparr>) =
               buildSingleFilterQuery (f\<lparr>maxValue := Undefined\<rparr>)
         \<and> (\<not> truthy (minValue f) \<and> \<not> truthy (maxValue f) \<longrightarrow>
              buildSingleFilterQuery f = Null
              \<and> leaf_query f = match_all
              \<and> keep_queries (qs1 @ leaf_query f # qs2) = keep_queries (qs1 @ qs2)
              \<and> row_query f = None
              \<and> row_queries (rows1 @ f # rows2) = row_queries (rows1 @ rows2))"
proof -
  have z: "\<not> truthy (Num 0)" "\<not> truthy (Str [])" by simp_all
  show ?thesis
    using range_bounds_utils[OF assms] range_bounds_inline[OF assms]
      falsy_min_as_absent[OF assms] falsy_max_as_absent[OF assms]
      falsy_min_as_absent(1)[OF assms z(1)] falsy_min_as_absent(1)[OF assms z(2)]
      falsy_max_as_absent(1)[OF assms z(1)] falsy_max_as_absent(1)[OF assms z(2)]
      range_unbounded_excluded[OF assms]
    by blast
qed

theorem C10_range_bounds_by_truthiness_witness:
  "operator (bytes_range (Num 0) (Str ''100'')) = ''range''
   \<and> buildSingleFilterQuery (bytes_range (Num 0) (Str ''100'')) =
       Obj [(''range'', Obj [(''bytes'', Obj [(''lt'', Num 100)])])]
   \<and> row_query (bytes_range (Num 0) (Str ''100'')) =
       Some (Obj [(''range'', Obj [(''bytes'', Obj [(''lt'', Num 100)])])])
   \<and> buildSingleFilterQuery (bytes_range (Num 0) (Str [])) = Null
   \<and> row_query (bytes_range (Num 0) (Str [])) = None
   \<and> generateQueryDSL [status_active, bytes_range (Num 0) (Str [])] =
       generateQueryDSL [status_active]"
proof -
  let ?f = "bytes_range (Num 0) (Str ''100'')"
  let ?g = "bytes_range (Num 0) (Str [])"
  have opf: "operator ?f = ''range''" and opg: "operator ?g = ''range''"
    by (simp_all add: bytes_range_def simple_def)
  have keys: "str_or (minOperator ?f) ''gt'' \<noteq> str_or (maxOperator ?f) ''lt''"
    by (simp add: bytes_range_def simple_def str_or_def)
  have fld: "field ?f \<noteq> []" by (simp add: bytes_range_def simple_def)
  have tb: "truthy_bounds ?f = [(''lt'', Num 100)]"
    by (simp add: truthy_bounds_def bytes_range_def simple_def str_or_def convertValue_def
        endsWith_def isNumeric_def numeric_re_def trim_def is_space_def is_digit_def
        parseFloat_def digits_val_def digit_val_def Let_def)
  have fname: "field ?f = ''bytes''" by (simp add: bytes_range_def simple_def)
  note thf = C10_range_bounds_by_truthiness[OF opf]
  note thg = C10_range_bounds_by_truthiness[OF opg, where ?rows1.0 = "[status_active]" and ?rows2.0 = "[]"]
  have a: "buildSingleFilterQuery ?f = Obj [(''range'', Obj [(''bytes'', Obj [(''lt'', Num 100)])])]"
    using thf keys by (simp add: tb fname)
  have b: "row_query ?f = Some (Obj [(''range'', Obj [(''bytes'', Obj [(''lt'', Num 100)])])])"
    using thf keys fld by (simp add: tb fname)
  have falsy: "\<not> truthy (minValue ?g) \<and> \<not> truthy (maxValue ?g)"
    by (simp add: bytes_range_def simple_def)
  have c: "buildSingleFilterQuery ?g = Null" using thg falsy by blast
  have d: "row_query ?g = None" using thg falsy by blast
  have e: "row_queries ([status_active] @ ?g # []) = row_queries ([status_active] @ [])"
    using thg falsy by blast
  have g: "generateQueryDSL [status_active, ?g] = generateQueryDSL [status_active]"
    using e by (simp add: generateQueryDSL_def)
  show ?thesis using opf a b c d g by simp
qed

subsection \<open>Explicit groups\<close>

lemma foldl_stitch_None: "foldl (stitch filters) None segs = None"
  by (induction segs) (simp_all add: stitch_def)

lemma combine_loop_fold:
  "i \<le> length segments \<Longrightarrow>
   combine_loop filters segments i result = foldl (stitch filters) (Some result) (drop i segments)"
proof (induction "length segments - i" arbitrary: i result)
  case 0
  then show ?case by (simp add: combine_loop.simps[of filters segments i])
next
  case (Suc n)
  then have lt: "i < length segments" by simp
  have dr: "drop i segments = segments ! i # drop (Suc i) segments"
    using lt by (rule Cons_nth_drop_Suc[symmetric])
  show ?case
  proof (cases "nth_opt filters (seg_start (segments ! i))")
    case None
    then show ?thesis
      using lt by (simp add: combine_loop.simps[of filters segments i] dr stitch_def foldl_stitch_None)
  next
    case (Some f)
    show ?thesis
    proof (cases "segment_node filters (segments ! i)")
      case None
      then show ?thesis
        using lt Some
        by (simp add: combine_loop.simps[of filters segments i] dr stitch_def foldl_stitch_None)
    next
      case (Some nextNode)
      have IH: "combine_loop filters segments (Suc i) (g_wrap (logic_or_AND f) [result, nextNode]) =
          foldl (stitch filters) (Some (g_wrap (logic_or_AND f) [result, nextNode]))
            (drop (Suc i) segments)"
        using Suc.hyps(2) lt by (intro Suc.hyps(1)) auto
      have w: "(if logic_or_AND f = OR then g_should [result, nextNode]
                else g_must [result, nextNode]) = g_wrap (logic_or_AND f) [result, nextNode]"
        by (cases "logic_or_AND f") (simp_all add: g_wrap_def)
      show ?thesis
        using lt \<open>nth_opt filters (seg_start (segments ! i)) = Some f\<close> Some IH
        by (simp add: combine_loop.simps[of filters segments i] dr stitch_def w)
    qed
  qed
qed

lemma buildASTWithGroups_fold:
  "buildASTWithGroups filters groups startIdx endIdx =
     (case segments_loop (sort_key (\<lambda>g. min_of (filterIndices g)) groups) endIdx startIdx [] of
        [] \<Rightarrow> None
      | seg0 # rest \<Rightarrow> foldl (stitch filters) (segment_node filters seg0) rest)"
proof -
  let ?segs = "segments_loop (sort_key (\<lambda>g. min_of (filterIndices g)) groups) endIdx startIdx []"
  show ?thesis
  proof (cases ?segs)
    case Nil
    then show ?thesis by (simp add: buildASTWithGroups_def nth_opt_def)
  next
    case (Cons seg0 rest)
    show ?thesis
    proof (cases rest)
      case Nil
      then show ?thesis using Cons by (simp add: buildASTWithGroups_def)
    next
      case (Cons seg1 rest')
      show ?thesis
      proof (cases "segment_node filters seg0")
        case None
        then show ?thesis using \<open>?segs = seg0 # rest\<close> Cons
          by (simp add: buildASTWithGroups_def nth_opt_def foldl_stitch_None stitch_def)
      next
        case (Some first)
        have "combine_loop filters ?segs 1 first = foldl (stitch filters) (Some first) (drop 1 ?segs)"
          using \<open>?segs = seg0 # rest\<close> by (intro combine_loop_fold) simp
        then show ?thesis using \<open>?segs = seg0 # rest\<close> Cons Some
          by (simp add: buildASTWithGroups_def nth_opt_def)
      qed
    qed
  qed
qed

lemma buildGroupNode_one:
  "length (group_members filters g) = 1 \<Longrightarrow>
   buildGroupNode filters g = g_leaf (filters ! hd (group_members filters g))"
  by (cases "group_members filters g") (simp_all add: buildGroupNode_def group_members_def)

lemma buildGroupNode_more:
  "2 \<le> length (group_members filters g) \<Longrightarrow>
   buildGroupNode filters g =
     g_wrap (group_type g) (map (\<lambda>idx. g_leaf (filters ! idx)) (group_members filters g))"
  by (cases "group_type g") (auto simp: buildGroupNode_def group_members_def g_wrap_def Let_def)

lemma stitch_wraps:
  "stitch filters (Some result) seg =
     (case nth_opt filters (seg_start seg) of
        None \<Rightarrow> None
      | Some f \<Rightarrow> map_option (\<lambda>nextNode. g_wrap (logic_or_AND f) [result, nextNode])
                    (segment_node filters seg))"
  by (simp add: stitch_def)

text \<open>
  C5, as stated, fails: the clauses \<open>A, B(AND), C(AND)\<close> with the one \<open>AND\<close> group over
  \<open>A, B\<close> give \<open>must[must[A, B], C]\<close>. The running result \<open>must[A, B]\<close> already carries the
  joining operator \<open>AND\<close>, so the fold of the implicit builder would give the flat
  \<open>must[A, B, C]\<close>.
\<close>

theorem C5_segments_nest:
  "buildASTWithGroups [status_active, type_user AND, type_admin AND] [and_group_01] 0 2 =
     Some (g_must [g_must [g_leaf status_active, g_leaf (type_user AND)], g_leaf (type_admin AND)])
   \<and> g_node (spec_join (Bool AND [Leaf (toKibanaFilter status_active),
                                    Leaf (toKibanaFilter (type_user AND))])
                         (AND, Leaf (toKibanaFilter (type_admin AND)))) =
       g_must [g_leaf status_active, g_leaf (type_user AND), g_leaf (type_admin AND)]
   \<and> buildASTWithGroups [status_active, type_user AND, type_admin AND] [and_group_01] 0 2 \<noteq>
       Some (g_must [g_leaf status_active, g_leaf (type_user AND), g_leaf (type_admin AND)])"
proof -
  have a: "buildASTWithGroups [status_active, type_user AND, type_admin AND] [and_group_01] 0 2 =
     Some (g_must [g_must [g_leaf status_active, g_leaf (type_user AND)], g_leaf (type_admin AND)])"
    by code_simp
  have b: "g_node (spec_join (Bool AND [Leaf (toKibanaFilter status_active),
                                    Leaf (toKibanaFilter (type_user AND))])
                         (AND, Leaf (toKibanaFilter (type_admin AND)))) =
       g_must [g_leaf status_active, g_leaf (type_user AND), g_leaf (type_admin AND)]"
    by (simp add: spec_join_def g_leaf_def)
  show ?thesis unfolding a using b by (simp add: g_must_def)
qed

text \<open>
  C5 as amended. A group segment with exactly one member inside the clause list becomes
  that member's leaf, one with more members the node of the group's type over the leaves
  of its members. The subtrees of the segments are combined from left to right, with the
  connector of the first clause of each segment as the joining operator; each step makes
  the result so far and the next subtree the two children of a new node (nothing is
  flattened, whatever operator the result so far carries).
\<close>

theorem C5_segments_are_wrapped_left_to_right:
  "buildASTWithGroups filters groups startIdx endIdx =
     (case segments_loop (sort_key (\<lambda>g. min_of (filterIndices g)) groups) endIdx startIdx [] of
        [] \<Rightarrow> None
      | seg0 # rest \<Rightarrow> foldl (stitch filters) (segment_node filters seg0) rest)
   \<and> stitch filters (Some result) seg =
       (case nth_opt filters (seg_start seg) of
          None \<Rightarrow> None
        | Some f \<Rightarrow> map_option (\<lambda>nextNode. g_wrap (logic_or_AND f) [result, nextNode])
                      (segment_node filters seg))
   \<and> segment_node filters (GroupSeg g s e) = Some (buildGroupNode filters g)
   \<and> (length (group_members filters g) = 1 \<longrightarrow>
        buildGroupNode filters g = g_leaf (filters ! hd (group_members filters g)))
   \<and> (2 \<le> length (group_members filters g) \<longrightarrow>
        buildGroupNode filters g =
          g_wrap (group_type g) (map (\<lambda>idx. g_leaf (filters ! idx)) (group_members filters g)))"
  using buildASTWithGroups_fold[of filters groups startIdx endIdx]
    stitch_wraps[of filters result seg] buildGroupNode_one[of filters g]
    buildGroupNode_more[of filters g]
  by (simp add: segment_node_def)

theorem C5_segments_are_wrapped_left_to_right_witness:
  "buildASTWithGroups [status_active, type_user AND, type_admin AND, category_premium OR]
       [and_group_01] 0 3 =
     Some (g_wrap AND
       [g_wrap AND [g_leaf status_active, g_leaf (type_user AND)],
        g_wrap OR [g_leaf (type_admin AND), g_leaf (category_premium OR)]])
   \<and> buildGroupNode [status_active, type_user AND, type_admin AND, category_premium OR]
       and_group_01 = g_wrap AND [g_leaf status_active, g_leaf (type_user AND)]"
proof -
  let ?fs = "[status_active, type_user AND, type_admin AND, category_premium OR]"
  note th = C5_segments_are_wrapped_left_to_right
    [where filters = ?fs and groups = "[and_group_01]" and startIdx = 0 and endIdx = 3
       and g = and_group_01]
  have m: "group_members ?fs and_group_01 = [0, 1]"
    by (simp add: group_members_def and_group_01_def)
  have t: "group_type and_group_01 = AND" by (simp add: and_group_01_def)
  have b: "buildGroupNode ?fs and_group_01 = g_wrap AND [g_leaf status_active, g_leaf (type_user AND)]"
    using th m t by simp
  have rhs: "(case segments_loop (sort_key (\<lambda>g. min_of (filterIndices g)) [and_group_01]) 3 0 [] of
        [] \<Rightarrow> None
      | seg0 # rest \<Rightarrow> foldl (stitch ?fs) (segment_node ?fs seg0) rest) =
     Some (g_wrap AND
       [g_wrap AND [g_leaf status_active, g_leaf (type_user AND)],
        g_wrap OR [g_leaf (type_admin AND), g_leaf (category_premium OR)]])"
    by code_simp
  have a: "buildASTWithGroups ?fs [and_group_01] 0 3 =
     Some (g_wrap AND
       [g_wrap AND [g_leaf status_active, g_leaf (type_user AND)],
        g_wrap OR [g_leaf (type_admin AND), g_leaf (category_premium OR)]])"
    using th[THEN conjunct1] unfolding rhs .
  show ?thesis using a b by simp
qed

section \<open>Properties of the group manager\<close>

subsection \<open>Removing a clause\<close>

lemma find_id: "find (\<lambda>g. group_id g = gid) gs = Some grp \<Longrightarrow> group_id grp = gid \<and> grp \<in> set gs"
  by (auto simp: find_Some_iff)

lemma filter_others_map:
  "filter (\<lambda>g. group_id g \<noteq> gid) (map (\<lambda>g. if group_id g = gid then u else g) gs) =
     (if group_id u = gid then filter (\<lambda>g. group_id g \<noteq> gid) gs
      else filter (\<lambda>g. group_id g \<noteq> gid) (map (\<lambda>g. if group_id g = gid then u else g) gs))"
  by (induction gs) auto

lemma removeGroup_events:
  "find (\<lambda>g. group_id g = gid) (m_groups s) = Some grp \<Longrightarrow>
   emitted_groups (snd (removeGroup gid s)) = Some (filter (\<lambda>g. group_id g \<noteq> gid) (m_groups s))"
  by (simp add: removeGroup_def Let_def emitFilterState_def)

lemma removeGroup_groups: "m_groups (fst (removeGroup gid s)) = m_groups s"
  by (simp add: removeGroup_def calculateSeparators_def Let_def split: option.splits)

lemma emitted_groups_append_removed:
  "emitted_groups (evs @ [FilterRemoved i]) = emitted_groups evs"
  by (induction evs) simp_all

lemma removeFilter_ungrouped:
  assumes "filter_group_id s index = None"
  shows "removeFilter index s = (clearSelection s, [FilterRemoved index])"
  using assms by (simp add: removeFilter_def)

lemma removeFilter_no_group:
  assumes "filter_group_id s index = Some gid" "find (\<lambda>g. group_id g = gid) (m_groups s) = None"
  shows "removeFilter index s = (clearSelection s, [FilterRemoved index])"
  using assms by (simp add: removeFilter_def)

lemma removeFilter_dissolve:
  assumes "filter_group_id s index = Some gid" "find (\<lambda>g. group_id g = gid) (m_groups s) = Some grp"
    and "length (updated_indices index (filterIndices grp)) < 2"
  shows "removeFilter index s =
           (clearSelection (fst (removeGroup gid s)), snd (removeGroup gid s) @ [FilterRemoved index])"
  using assms by (simp add: removeFilter_def Let_def split: prod.splits)

lemma removeFilter_update:
  assumes "filter_group_id s index = Some gid" "find (\<lambda>g. group_id g = gid) (m_groups s) = Some grp"
    and "\<not> length (updated_indices index (filterIndices grp)) < 2"
  shows "removeFilter index s =
           (clearSelection s,
            [GroupsChanged (map (\<lambda>g. if group_id g = gid
                                      then grp\<lparr> filterIndices := updated_indices index (filterIndices grp) \<rparr>
                                      else g) (m_groups s)),
             FilterRemoved index])"
  using assms by (simp add: removeFilter_def Let_def)

lemma groups_after_removeFilter:
  "groups_after (removeFilter index s) =
     (case filter_group_id s index of
        None \<Rightarrow> m_groups s
      | Some gid \<Rightarrow>
          (case find (\<lambda>g. group_id g = gid) (m_groups s) of
             None \<Rightarrow> m_groups s
           | Some grp \<Rightarrow>
               if length (updated_indices index (filterIndices grp)) < 2
               then filter (\<lambda>g. group_id g \<noteq> gid) (m_groups s)
               else map (\<lambda>g. if group_id g = gid
                              then grp\<lparr> filterIndices := updated_indices index (filterIndices grp) \<rparr>
                              else g) (m_groups s)))"
proof (cases "filter_group_id s index")
  case None
  then show ?thesis
    by (simp add: removeFilter_ungrouped groups_after_def clearSelection_def)
next
  case (Some gid)
  show ?thesis
  proof (cases "find (\<lambda>g. group_id g = gid) (m_groups s)")
    case None
    then show ?thesis using Some
      by (simp add: removeFilter_no_group groups_after_def clearSelection_def)
  next
    case (Some grp)
    show ?thesis
    proof (cases "length (updated_indices index (filterIndices grp)) < 2")
      case True
      then show ?thesis
        using \<open>filter_group_id s index = Some gid\<close> Some
        by (simp add: removeFilter_dissolve groups_after_def emitted_groups_append_removed
            removeGroup_events)
    next
      case False
      then show ?thesis
        using \<open>filter_group_id s index = Some gid\<close> Some
        by (simp add: removeFilter_update groups_after_def)
    qed
  qed
qed

lemma removeFilter_frame:
  "filter (\<lambda>g. \<forall>gid. filter_group_id s index = Some gid \<longrightarrow> group_id g \<noteq> gid)
     (groups_after (removeFilter index s)) =
   filter (\<lambda>g. \<forall>gid. filter_group_id s index = Some gid \<longrightarrow> group_id g \<noteq> gid) (m_groups s)"
proof (cases "filter_group_id s index")
  case None
  then show ?thesis by (simp add: groups_after_removeFilter)
next
  case (Some gid)
  show ?thesis
  proof (cases "find (\<lambda>g. group_id g = gid) (m_groups s)")
    case None
    then show ?thesis using Some by (simp add: groups_after_removeFilter)
  next
    case (Some grp)
    have id: "group_id grp = gid" using find_id[OF Some] by simp
    show ?thesis
      using \<open>filter_group_id s index = Some gid\<close> Some id
      by (simp add: groups_after_removeFilter filter_others_map)
  qed
qed

lemma removeFilter_keeps_input_groups: "m_groups (fst (removeFilter index s)) = m_groups s"
  by (simp add: removeFilter_def clearSelection_def removeGroup_groups Let_def
      split: option.splits prod.splits)
     (metis fst_conv removeGroup_groups)

text \<open>
  C9 (\<open>removeFilter\<close> recomputes only the owning group). The component's own list of
  groups is never assigned. In the list that \<open>removeFilter\<close> leaves behind, every group
  with another id than the one named by the removed clause is unchanged, in the same
  order, whatever its indices are (none is decremented); when the groups are updated,
  the owning group changes in its indices only; and when the removed clause names no
  group, no \<open>groupsChanged\<close> event is emitted at all.
\<close>

theorem C9_remove_leaves_other_groups_alone:
  "m_groups (fst (removeFilter index s)) = m_groups s
   \<and> (filter_group_id s index = Some gid \<longrightarrow>
        filter (\<lambda>g. group_id g \<noteq> gid) (groups_after (removeFilter index s)) =
        filter (\<lambda>g. group_id g \<noteq> gid) (m_groups s))
   \<and> (filter_group_id s index = Some gid \<longrightarrow>
        find (\<lambda>g. group_id g = gid) (m_groups s) = Some grp \<longrightarrow>
        2 \<le> length (updated_indices index (filterIndices grp)) \<longrightarrow>
        groups_after (removeFilter index s) =
          map (\<lambda>g. if group_id g = gid
                    then grp\<lparr> filterIndices := updated_indices index (filterIndices grp) \<rparr>
                    else g) (m_groups s))
   \<and> (filter_group_id s index = None \<longrightarrow>
        snd (removeFilter index s) = [FilterRemoved index]
        \<and> groups_after (removeFilter index s) = m_groups s)"
proof -
  have a: "filter_group_id s index = Some gid \<longrightarrow>
        filter (\<lambda>g. group_id g \<noteq> gid) (groups_after (removeFilter index s)) =
        filter (\<lambda>g. group_id g \<noteq> gid) (m_groups s)"
    using removeFilter_frame[of s index] by auto
  have b: "filter_group_id s index = Some gid \<longrightarrow>
        find (\<lambda>g. group_id g = gid) (m_groups s) = Some grp \<longrightarrow>
        2 \<le> length (updated_indices index (filterIndices grp)) \<longrightarrow>
        groups_after (removeFilter index s) =
          map (\<lambda>g. if group_id g = gid
                    then grp\<lparr> filterIndices := updated_indices index (filterIndices grp) \<rparr>
                    else g) (m_groups s)"
    by (simp add: groups_after_removeFilter)
  have c: "filter_group_id s index = None \<longrightarrow>
        snd (removeFilter index s) = [FilterRemoved index]
        \<and> groups_after (removeFilter index s) = m_groups s"
    by (simp add: removeFilter_ungrouped groups_after_def clearSelection_def)
  show ?thesis using removeFilter_keeps_input_groups[of index s] a b c by blast
qed

theorem C9_remove_leaves_other_groups_alone_witness:
  "filter_group_id (two_groups []) 0 = Some ''g1''
   \<and> groups_after (removeFilter 0 (two_groups [])) =
       [group_012\<lparr> filterIndices := [0, 1] \<rparr>, group_34]
   \<and> filterIndices group_34 = [3, 4]
   \<and> filter_group_id (three_ungrouped []) 1 = None
   \<and> snd (removeFilter 1 (three_ungrouped [])) = [FilterRemoved 1]"
proof -
  have g: "filter_group_id (two_groups []) 0 = Some ''g1''"
    by (simp add: filter_group_id_def two_groups_def five_clauses_def grouped_def member_of_def
        nth_opt_def)
  have f: "find (\<lambda>g. group_id g = ''g1'') (m_groups (two_groups [])) = Some group_012"
    by (simp add: two_groups_def group_012_def)
  have u: "updated_indices 0 (filterIndices group_012) = [0, 1]"
    by (simp add: updated_indices_def group_012_def)
  have n: "filter_group_id (three_ungrouped []) 1 = None"
    by (simp add: filter_group_id_def three_ungrouped_def grouped_def nth_opt_def)
  note th1 = C9_remove_leaves_other_groups_alone
    [where s = "two_groups []" and index = 0 and gid = "''g1''" and grp = group_012]
  note th2 = C9_remove_leaves_other_groups_alone[where s = "three_ungrouped []" and index = 1]
  have a: "groups_after (removeFilter 0 (two_groups [])) =
      map (\<lambda>g. if group_id g = ''g1''
                then group_012\<lparr> filterIndices := updated_indices 0 (filterIndices group_012) \<rparr>
                else g) (m_groups (two_groups []))"
    using th1 g f u by simp
  have b: "snd (removeFilter 1 (three_ungrouped [])) = [FilterRemoved 1]"
    using th2 n by blast
  show ?thesis
    using g n b unfolding a u
    by (simp add: two_groups_def group_012_def group_34_def)
qed

subsection \<open>Creating a group\<close>

text \<open>
  A list passes the contiguity test of \<open>createGroupFromSelection\<close> exactly when it is an
  interval, so it has no duplicates, and \<open>updateFilterMetadata\<close> writes each member once.
\<close>

lemma isContiguous_step:
  "isContiguous xs \<Longrightarrow> 0 < i \<Longrightarrow> i < length xs \<Longrightarrow> xs ! i = xs ! (i - 1) + 1"
proof -
  assume a: "isContiguous xs" and b: "0 < i" and c: "i < length xs"
  from a have "\<forall>k\<in>set [0..<length xs]. k = 0 \<or> xs ! k = xs ! (k - 1) + 1"
    by (simp only: isContiguous_def list_all_iff)
  moreover have "i \<in> set [0..<length xs]" using c by simp
  ultimately have "i = 0 \<or> xs ! i = xs ! (i - 1) + 1" by (rule bspec)
  then show ?thesis using b by simp
qed

lemma isContiguous_nth:
  "isContiguous xs \<Longrightarrow> i < length xs \<Longrightarrow> xs ! i = xs ! 0 + i"
proof (induction i)
  case 0
  then show ?case by simp
next
  case (Suc i)
  then have "xs ! Suc i = xs ! i + 1" using isContiguous_step[of xs "Suc i"] by simp
  then show ?case using Suc by simp
qed

lemma isContiguous_upt:
  assumes "isContiguous xs" "xs \<noteq> []"
  shows "xs = [xs ! 0..<xs ! 0 + length xs]"
proof (rule nth_equalityI)
  show "length xs = length [xs ! 0..<xs ! 0 + length xs]" by simp
next
  fix i assume "i < length xs"
  then show "xs ! i = [xs ! 0..<xs ! 0 + length xs] ! i"
    using isContiguous_nth[OF assms(1)] by simp
qed


lemma isContiguous_distinct: "isContiguous xs \<Longrightarrow> distinct xs"
proof (cases "xs = []")
  case True
  then show ?thesis by simp
next
  case False
  assume "isContiguous xs"
  then have "xs = [xs ! 0..<xs ! 0 + length xs]" using False by (rule isContiguous_upt)
  moreover have "distinct [xs ! 0..<xs ! 0 + length xs]" by (rule distinct_upt)
  ultimately show ?thesis by (rule ssubst)
qed

lemma tag_member_length: "length (tag_member gid gt n p fs) = length fs"
  by (simp add: tag_member_def)

lemma tag_member_other: "snd p \<noteq> idx \<Longrightarrow> tag_member gid gt n p fs ! idx = fs ! idx"
  by (simp add: tag_member_def)

lemma tag_member_same:
  "idx < length fs \<Longrightarrow> tag_member gid gt n (i, idx) fs ! idx =
     (fs ! idx)\<lparr> groupMeta :=
             Some \<lparr> groupId = Some gid, groupType = Some gt, isGroupStart = Some (i = 0),
                    isGroupEnd = Some (i = n - 1), meta_parentGroupId = None \<rparr> \<rparr>"
  by (simp add: tag_member_def)

lemma length_fold_tag: "length (fold (tag_member gid gt n) ps fs) = length fs"
  by (induction ps arbitrary: fs) (simp_all add: tag_member_length)

lemma fold_tag_other:
  "idx \<notin> snd ` set ps \<Longrightarrow> fold (tag_member gid gt n) ps fs ! idx = fs ! idx"
proof (induction ps arbitrary: fs)
  case Nil
  then show ?case by simp
next
  case (Cons p ps)
  then have "idx \<notin> snd ` set ps" "snd p \<noteq> idx" by auto
  then show ?case using Cons.IH[of "tag_member gid gt n p fs"]
    by (simp add: tag_member_other)
qed

lemma fold_tag_member:
  assumes "distinct (map snd ps)" "(i, idx) \<in> set ps" "idx < length fs"
  shows "fold (tag_member gid gt n) ps fs ! idx =
           (fs ! idx)\<lparr> groupMeta :=
             Some \<lparr> groupId = Some gid, groupType = Some gt, isGroupStart = Some (i = 0),
                    isGroupEnd = Some (i = n - 1), meta_parentGroupId = None \<rparr> \<rparr>"
  using assms
proof (induction ps arbitrary: fs)
  case Nil
  then show ?case by simp
next
  case (Cons p ps)
  show ?case
  proof (cases "p = (i, idx)")
    case True
    then have "idx \<notin> snd ` set ps" using Cons.prems(1) by (auto simp: image_iff)
    then have "fold (tag_member gid gt n) ps (tag_member gid gt n p fs) ! idx =
        tag_member gid gt n p fs ! idx"
      by (rule fold_tag_other)
    then show ?thesis using True Cons.prems(3) by (simp add: tag_member_same)
  next
    case False
    then have in_ps: "(i, idx) \<in> set ps" using Cons.prems(2) by simp
    then have ne: "snd p \<noteq> idx" using Cons.prems(1) by (auto simp: image_iff)
    have len: "idx < length (tag_member gid gt n p fs)"
      using Cons.prems(3) by (simp add: tag_member_length)
    have "fold (tag_member gid gt n) ps (tag_member gid gt n p fs) ! idx =
        (tag_member gid gt n p fs ! idx)\<lparr> groupMeta :=
             Some \<lparr> groupId = Some gid, groupType = Some gt, isGroupStart = Some (i = 0),
                    isGroupEnd = Some (i = n - 1), meta_parentGroupId = None \<rparr> \<rparr>"
      using Cons.prems(1) in_ps len by (intro Cons.IH) simp_all
    moreover have "tag_member gid gt n p fs ! idx = fs ! idx"
      using ne by (rule tag_member_other)
    ultimately show ?thesis by simp
  qed
qed

lemma updateFilterMetadata_member:
  assumes "distinct indices" "i < length indices" "indices ! i < length fs"
  shows "updateFilterMetadata indices gid gt fs ! (indices ! i) =
           (fs ! (indices ! i))\<lparr> groupMeta :=
             Some \<lparr> groupId = Some gid, groupType = Some gt, isGroupStart = Some (i = 0),
                    isGroupEnd = Some (i = length indices - 1), meta_parentGroupId = None \<rparr> \<rparr>"
proof -
  have "(i, indices ! i) \<in> set (List.enumerate 0 indices)"
    using assms(2) by (simp add: in_set_enumerate_eq)
  moreover have "distinct (map snd (List.enumerate 0 indices))"
    using assms(1) by simp
  ultimately show ?thesis
    unfolding updateFilterMetadata_def using assms(3) by (intro fold_tag_member)
qed

lemma updateFilterMetadata_other:
  "j \<notin> set indices \<Longrightarrow> updateFilterMetadata indices gid gt fs ! j = fs ! j"
proof -
  have "snd ` set (List.enumerate 0 indices) = set indices"
    by (metis map_snd_enumerate set_map)
  then show "j \<notin> set indices \<Longrightarrow> updateFilterMetadata indices gid gt fs ! j = fs ! j"
    unfolding updateFilterMetadata_def by (intro fold_tag_other) simp
qed

lemma updateFilterMetadata_length: "length (updateFilterMetadata indices gid gt fs) = length fs"
  by (simp add: updateFilterMetadata_def length_fold_tag)


lemma createGroup_too_small:
  "length (selectedIndices s) < 2 \<Longrightarrow> createGroupFromSelection gid gt s = (s, [])"
  by (simp add: createGroupFromSelection_def)

lemma createGroup_not_contiguous:
  "2 \<le> length (selectedIndices s) \<Longrightarrow> \<not> isContiguous (sort (selectedIndices s)) \<Longrightarrow>
   createGroupFromSelection gid gt s =
     (s, [ConsoleWarn ''Cannot create group with non-contiguous filters''])"
  by (simp add: createGroupFromSelection_def Let_def)

lemma no_overlap_filter:
  "filter (\<lambda>g. \<not> list_ex (\<lambda>idx. idx \<in> set (filterIndices g)) (sort sel)) gs =
   filter (\<lambda>g. set (filterIndices g) \<inter> set sel = {}) gs"
  by (rule filter_cong) (auto simp: list_ex_iff)

lemma createGroup_success:
  assumes "2 \<le> length (selectedIndices s)" "isContiguous (sort (selectedIndices s))"
  shows "createGroupFromSelection gid gt s =
     (s\<lparr> m_filters := updateFilterMetadata (sort (selectedIndices s)) gid gt (m_filters s),
         selectedIndices := [], lastClickedIndex := None \<rparr>,
      [GroupsChanged
         (filter (\<lambda>g. set (filterIndices g) \<inter> set (selectedIndices s) = {}) (m_groups s) @
          [\<lparr> group_id = gid, group_type = gt, filterIndices = sort (selectedIndices s),
             parentGroupId = None \<rparr>]),
       FiltersChanged (updateFilterMetadata (sort (selectedIndices s)) gid gt (m_filters s))
         (m_groups s) (m_customLabel s)])"
  using assms
  by (simp add: createGroupFromSelection_def Let_def no_overlap_filter clearSelection_def
      emitFilterState_def)

lemma createGroup_groups_after:
  assumes "2 \<le> length (selectedIndices s)" "isContiguous (sort (selectedIndices s))"
  shows "groups_after (createGroupFromSelection gid gt s) =
     filter (\<lambda>g. set (filterIndices g) \<inter> set (selectedIndices s) = {}) (m_groups s) @
       [\<lparr> group_id = gid, group_type = gt, filterIndices = sort (selectedIndices s),
          parentGroupId = None \<rparr>]"
  by (simp add: createGroup_success[OF assms] groups_after_def)


text \<open>
  C7, as stated: a selection that is too small or not contiguous fails with a reported
  \<open>InvalidGroupError\<close>, never silently. The code has no such error. With the single clause 0
  selected over three ungrouped clauses, \<open>createGroupFromSelection\<close> returns at its first
  test: the state is unchanged and no event at all leaves the component, not even the console
  warning of the non-contiguous case.
\<close>

theorem C7_too_small_selection_is_silent:
  "createGroupFromSelection ''g3'' OR (three_ungrouped [0]) = (three_ungrouped [0], [])"
  by (simp add: createGroupFromSelection_def three_ungrouped_def)



text \<open>
  C7, amended: \<open>createGroupFromSelection\<close> never throws. With fewer than 2 selected indices it
  returns silently, with the state unchanged and no event. With at least 2 indices that are not
  contiguous after sorting it logs the console warning and nothing else, the state (clauses,
  groups, selection) unchanged. Otherwise it emits the groups that share no index with the
  selection followed by the new group over the sorted selection, clears the selection, tags the
  \<open>i\<close>-th sorted member with the group's id and type, \<open>isGroupStart\<close> for the first and
  \<open>isGroupEnd\<close> for the last, and leaves every clause outside the selection as it was.
\<close>

theorem C7_createGroup_outcomes:
  "(length (selectedIndices s) < 2 \<longrightarrow> createGroupFromSelection gid gt s = (s, []))
   \<and> (2 \<le> length (selectedIndices s) \<longrightarrow> \<not> isContiguous (sort (selectedIndices s)) \<longrightarrow>
        createGroupFromSelection gid gt s =
          (s, [ConsoleWarn ''Cannot create group with non-contiguous filters'']))
   \<and> (2 \<le> length (selectedIndices s) \<longrightarrow> isContiguous (sort (selectedIndices s)) \<longrightarrow>
        groups_after (createGroupFromSelection gid gt s) =
          filter (\<lambda>g. set (filterIndices g) \<inter> set (selectedIndices s) = {}) (m_groups s) @
            [\<lparr> group_id = gid, group_type = gt, filterIndices = sort (selectedIndices s),
               parentGroupId = None \<rparr>]
        \<and> selectedIndices (fst (createGroupFromSelection gid gt s)) = []
        \<and> (\<forall>i. i < length (selectedIndices s) \<longrightarrow>
               sort (selectedIndices s) ! i < length (m_filters s) \<longrightarrow>
               m_filters (fst (createGroupFromSelection gid gt s)) ! (sort (selectedIndices s) ! i) =
                 (m_filters s ! (sort (selectedIndices s) ! i))
                   \<lparr> groupMeta := member_of gid gt (i = 0) (i = length (selectedIndices s) - 1) \<rparr>)
        \<and> (\<forall>j. j \<notin> set (selectedIndices s) \<longrightarrow>
               m_filters (fst (createGroupFromSelection gid gt s)) ! j = m_filters s ! j))"
proof -
  {
    assume a: "2 \<le> length (selectedIndices s)" "isContiguous (sort (selectedIndices s))"
    note eq = createGroup_success[OF a, of gid gt]
    have d: "distinct (sort (selectedIndices s))" using a(2) by (rule isContiguous_distinct)
    have m: "\<And>i. i < length (selectedIndices s) \<Longrightarrow>
               sort (selectedIndices s) ! i < length (m_filters s) \<Longrightarrow>
               m_filters (fst (createGroupFromSelection gid gt s)) ! (sort (selectedIndices s) ! i) =
                 (m_filters s ! (sort (selectedIndices s) ! i))
                   \<lparr> groupMeta := member_of gid gt (i = 0) (i = length (selectedIndices s) - 1) \<rparr>"
      using updateFilterMetadata_member[OF d, of _ "m_filters s" gid gt]
      by (simp add: eq member_of_def)
    have o: "\<And>j. j \<notin> set (selectedIndices s) \<Longrightarrow>
               m_filters (fst (createGroupFromSelection gid gt s)) ! j = m_filters s ! j"
      using updateFilterMetadata_other[of _ "sort (selectedIndices s)" gid gt "m_filters s"]
      by (simp add: eq)
    have c: "selectedIndices (fst (createGroupFromSelection gid gt s)) = []"
      by (simp add: eq)
    note createGroup_groups_after[OF a, of gid gt] c m o
  }
  then show ?thesis
    using createGroup_too_small[of s gid gt] createGroup_not_contiguous[of s gid gt] by blast
qed


theorem C7_createGroup_outcomes_witness:
  "length (selectedIndices (two_groups [4])) < 2
   \<and> createGroupFromSelection ''g3'' OR (two_groups [4]) = (two_groups [4], [])
   \<and> 2 \<le> length (selectedIndices (three_ungrouped [0, 2]))
   \<and> \<not> isContiguous (sort (selectedIndices (three_ungrouped [0, 2])))
   \<and> createGroupFromSelection ''g3'' OR (three_ungrouped [0, 2]) =
       (three_ungrouped [0, 2], [ConsoleWarn ''Cannot create group with non-contiguous filters''])
   \<and> isContiguous (sort (selectedIndices (two_groups [3, 2])))
   \<and> groups_after (createGroupFromSelection ''g3'' OR (two_groups [3, 2])) =
       [\<lparr> group_id = ''g3'', group_type = OR, filterIndices = [2, 3], parentGroupId = None \<rparr>]
   \<and> selectedIndices (fst (createGroupFromSelection ''g3'' OR (two_groups [3, 2]))) = []
   \<and> groupMeta (m_filters (fst (createGroupFromSelection ''g3'' OR (two_groups [3, 2]))) ! 2) =
       member_of ''g3'' OR True False
   \<and> groupMeta (m_filters (fst (createGroupFromSelection ''g3'' OR (two_groups [3, 2]))) ! 3) =
       member_of ''g3'' OR False True
   \<and> m_filters (fst (createGroupFromSelection ''g3'' OR (two_groups [3, 2]))) ! 4 =
       five_clauses ! 4"
proof -
  have s1: "selectedIndices (two_groups [4]) = [4]" by (simp add: two_groups_def)
  have s2: "selectedIndices (three_ungrouped [0, 2]) = [0, 2]" by (simp add: three_ungrouped_def)
  have s3: "selectedIndices (two_groups [3, 2]) = [3, 2]" by (simp add: two_groups_def)
  have o2: "sort [0, 2 :: nat] = [0, 2]" by simp
  have o3: "sort [3, 2 :: nat] = [2, 3]" by simp
  have n2: "\<not> isContiguous [0, 2]" by (simp add: isContiguous_def upt_rec)
  have c3: "isContiguous [2, 3]" by (simp add: isContiguous_def upt_rec)
  have fs: "m_filters (two_groups [3, 2]) = five_clauses" by (simp add: two_groups_def)
  have gs: "m_groups (two_groups [3, 2]) = [group_012, group_34]" by (simp add: two_groups_def)
  note th1 = C7_createGroup_outcomes[where s = "two_groups [4]" and gid = "''g3''" and gt = OR]
  note th2 = C7_createGroup_outcomes
    [where s = "three_ungrouped [0, 2]" and gid = "''g3''" and gt = OR]
  note th3 = C7_createGroup_outcomes[where s = "two_groups [3, 2]" and gid = "''g3''" and gt = OR]
  have a: "createGroupFromSelection ''g3'' OR (two_groups [4]) = (two_groups [4], [])"
    using th1 s1 by simp
  have b: "createGroupFromSelection ''g3'' OR (three_ungrouped [0, 2]) =
       (three_ungrouped [0, 2], [ConsoleWarn ''Cannot create group with non-contiguous filters''])"
    using th2 n2 unfolding s2 o2 by simp
  have c: "groups_after (createGroupFromSelection ''g3'' OR (two_groups [3, 2])) =
          filter (\<lambda>g. set (filterIndices g) \<inter> set [3, 2] = {}) [group_012, group_34] @
            [\<lparr> group_id = ''g3'', group_type = OR, filterIndices = [2, 3],
               parentGroupId = None \<rparr>]"
    and d: "selectedIndices (fst (createGroupFromSelection ''g3'' OR (two_groups [3, 2]))) = []"
    and e: "\<forall>i. i < length [3, 2 :: nat] \<longrightarrow> [2, 3] ! i < length five_clauses \<longrightarrow>
               m_filters (fst (createGroupFromSelection ''g3'' OR (two_groups [3, 2]))) ! ([2, 3] ! i) =
                 (five_clauses ! ([2, 3] ! i))
                   \<lparr> groupMeta := member_of ''g3'' OR (i = 0) (i = length [3, 2 :: nat] - 1) \<rparr>"
    and f: "\<forall>j. j \<notin> set [3, 2] \<longrightarrow>
               m_filters (fst (createGroupFromSelection ''g3'' OR (two_groups [3, 2]))) ! j =
               five_clauses ! j"
    using th3 c3 unfolding s3 o3 fs gs by simp_all
  have e0: "m_filters (fst (createGroupFromSelection ''g3'' OR (two_groups [3, 2]))) ! 2 =
      (five_clauses ! 2)\<lparr> groupMeta := member_of ''g3'' OR True False \<rparr>"
    using e[rule_format, of 0] by (simp add: five_clauses_def)
  have e1: "m_filters (fst (createGroupFromSelection ''g3'' OR (two_groups [3, 2]))) ! 3 =
      (five_clauses ! 3)\<lparr> groupMeta := member_of ''g3'' OR False True \<rparr>"
    using e[rule_format, of 1] by (simp add: five_clauses_def)
  have f4: "m_filters (fst (createGroupFromSelection ''g3'' OR (two_groups [3, 2]))) ! 4 =
      five_clauses ! 4"
    using f[rule_format, of 4] by simp
  show ?thesis
    unfolding s1 s2 s3 o2 o3 a b c d e0 e1 f4 using n2 c3
    by (simp add: group_012_def group_34_def)
qed

subsection \<open>The invariant of the explicit groups\<close>

























lemma clear_member_length: "length (clear_member i fs) = length fs"
  by (simp add: clear_member_def)



lemma fold_clear_member_length: "length (fold clear_member xs fs) = length fs"
  by (induction xs arbitrary: fs) (simp_all add: clear_member_length)













end
